theory Spec2Isabelle
  imports Main
begin

section \<open>JavaScript string primitives used by the statistics module\<close>

text \<open>
  Strings are lists of characters. The model covers ASCII text: \<open>\w\<close>, \<open>\d\<close>,
  \<open>toUpperCase\<close> and \<open>toLowerCase\<close> are the ASCII parts of the JavaScript ones.
  \<open>isSpace\<close> is the white space of \<open>trim\<close>, \<open>\s\<close> and \<open>parseInt\<close> among the
  characters below 256: the ASCII ones and the no-break space \<open>0xA0\<close>. Numbers
  produced by \<open>parseInt\<close> are unbounded integers (JavaScript agrees with them below
  \<open>2^53\<close>).
\<close>

abbreviation CR :: char where "CR \<equiv> CHR 0x0D"
abbreviation LF :: char where "LF \<equiv> CHR 0x0A"

definition isSpace :: "char \<Rightarrow> bool" where
  "isSpace c =
     (c \<in> set [CHR 0x09, CHR 0x0A, CHR 0x0B, CHR 0x0C, CHR 0x0D, CHR 0x20, CHR 0xA0])"

definition isDigit :: "char \<Rightarrow> bool" where
  "isDigit c = (c \<in> set ''0123456789'')"

definition isLower :: "char \<Rightarrow> bool" where
  "isLower c = (c \<in> set ''abcdefghijklmnopqrstuvwxyz'')"

definition isUpper :: "char \<Rightarrow> bool" where
  "isUpper c = (c \<in> set ''ABCDEFGHIJKLMNOPQRSTUVWXYZ'')"

definition isWord :: "char \<Rightarrow> bool" where
  "isWord c = (isLower c \<or> isUpper c \<or> isDigit c \<or> c = CHR ''_'')"

definition upperChar :: "char \<Rightarrow> char" where
  "upperChar c = (if isLower c then char_of (of_char c - (32::nat)) else c)"

definition lowerChar :: "char \<Rightarrow> char" where
  "lowerChar c = (if isUpper c then char_of (of_char c + (32::nat)) else c)"

definition toUpperCase :: "string \<Rightarrow> string" where
  "toUpperCase s = map upperChar s"

definition toLowerCase :: "string \<Rightarrow> string" where
  "toLowerCase s = map lowerChar s"

definition trim :: "string \<Rightarrow> string" where
  "trim s = rev (dropWhile isSpace (rev (dropWhile isSpace s)))"

text \<open>\<open>s.split(c)\<close> for a one-character separator: never the empty list.\<close>

fun splitAcc :: "char \<Rightarrow> string \<Rightarrow> string \<Rightarrow> string list" where
  "splitAcc c cur [] = [rev cur]"
| "splitAcc c cur (x # xs) =
     (if x = c then rev cur # splitAcc c [] xs else splitAcc c (x # cur) xs)"

definition splitOn :: "char \<Rightarrow> string \<Rightarrow> string list" where
  "splitOn c s = splitAcc c [] s"

text \<open>\<open>xs.join(sep)\<close>.\<close>

fun join :: "string \<Rightarrow> string list \<Rightarrow> string" where
  "join sep [] = []"
| "join sep [x] = x"
| "join sep (x # y # ys) = x @ sep @ join sep (y # ys)"

text \<open>\<open>s.startsWith(t)\<close> and \<open>s.includes(t)\<close>.\<close>

definition startsWith :: "string \<Rightarrow> string \<Rightarrow> bool" where
  "startsWith s t = (take (length t) s = t)"

fun includesStr :: "string \<Rightarrow> string \<Rightarrow> bool" where
  "includesStr [] t = (t = [])"
| "includesStr (x # xs) t = (startsWith (x # xs) t \<or> includesStr xs t)"

text \<open>
  \<open>parseInt(s, 10)\<close>: leading white space is skipped, one sign is read, then the
  longest run of decimal digits; \<open>None\<close> is \<open>NaN\<close> (no digit there). Whatever
  follows the digits is ignored, as in JavaScript.
\<close>

definition digitVal :: "char \<Rightarrow> int" where
  "digitVal c = int (of_char c - (48::nat))"

definition decimalValue :: "string \<Rightarrow> int" where
  "decimalValue ds = foldl (\<lambda>acc c. 10 * acc + digitVal c) 0 ds"

definition parseInt :: "string \<Rightarrow> int option" where
  "parseInt s =
     (let t = dropWhile isSpace s;
          neg = (case t of [] \<Rightarrow> False | c # _ \<Rightarrow> c = CHR ''-'');
          u = (case t of [] \<Rightarrow> [] | c # r \<Rightarrow> if c = CHR ''-'' \<or> c = CHR ''+'' then r else t);
          ds = takeWhile isDigit u
      in if ds = [] then None
         else Some (if neg then - decimalValue ds else decimalValue ds))"

section \<open>Address parser\<close>

record fieldReference =
  segment :: string
  field :: int
  component :: "int option"
  subcomponent :: "int option"

text \<open>
  \<open>parseFieldReference\<close>: \<open>None\<close> is the \<open>null\<close> the source returns. The
  optional parts are absent (\<open>undefined\<close>) when the reference has fewer parts.
\<close>

definition numericPart :: "string \<Rightarrow> int option" where
  "numericPart p = (case parseInt p of None \<Rightarrow> None | Some n \<Rightarrow> if n < 1 then None else Some n)"

definition parseFieldReference :: "string \<Rightarrow> fieldReference option" where
  "parseFieldReference fieldRef =
     (if fieldRef = [] then None
      else
        let trimmed = toUpperCase (trim fieldRef);
            parts = splitOn (CHR ''.'') trimmed
        in if length parts < 2 \<or> length parts > 4 then None
           else
             let seg = parts ! 0 in
             (case numericPart (parts ! 1) of
                None \<Rightarrow> None
              | Some fld \<Rightarrow>
                  if seg = [] then None
                  else
                    (if length parts \<ge> 3 then
                       (case numericPart (parts ! 2) of
                          None \<Rightarrow> None
                        | Some cmp \<Rightarrow>
                            (if length parts = 4 then
                               (case numericPart (parts ! 3) of
                                  None \<Rightarrow> None
                                | Some sub \<Rightarrow>
                                    Some \<lparr>segment = seg, field = fld,
                                      component = Some cmp, subcomponent = Some sub\<rparr>)
                             else Some \<lparr>segment = seg, field = fld,
                                    component = Some cmp, subcomponent = None\<rparr>))
                     else Some \<lparr>segment = seg, field = fld,
                            component = None, subcomponent = None\<rparr>)))"

section \<open>Value resolver\<close>

text \<open>
  \<open>xs[i]\<close> read as the source uses it: every read is guarded by
  \<open>i < 0 || i >= xs.length\<close>, which returns the empty string.
\<close>

definition fieldAt :: "string list \<Rightarrow> int \<Rightarrow> string" where
  "fieldAt xs i = (if i < 0 \<or> i \<ge> int (length xs) then [] else xs ! nat i)"

text \<open>
  \<open>extractComponentValue\<close>. An absent number (\<open>undefined\<close>) and the number 0 are
  both falsy in the tests \<open>!compNum\<close> and \<open>!subcompNum\<close>.
\<close>

definition extractComponentValue ::
  "string \<Rightarrow> int option \<Rightarrow> int option \<Rightarrow> char \<Rightarrow> char \<Rightarrow> string" where
  "extractComponentValue fieldValue compNum subcompNum compSep subcompSep =
     (if fieldValue = [] then []
      else
        (case compNum of
           None \<Rightarrow> fieldValue
         | Some cn \<Rightarrow>
             if cn = 0 then fieldValue
             else
               let components = splitOn compSep fieldValue;
                   compIndex = cn - 1
               in if compIndex < 0 \<or> compIndex \<ge> int (length components) then []
                  else
                    let compValue = components ! nat compIndex in
                    (case subcompNum of
                       None \<Rightarrow> compValue
                     | Some sn \<Rightarrow>
                         if sn = 0 then compValue
                         else
                           let subcomponents = splitOn subcompSep compValue;
                               subcompIndex = sn - 1
                           in if subcompIndex < 0 \<or> subcompIndex \<ge> int (length subcomponents)
                              then []
                              else subcomponents ! nat subcompIndex)))"

record hl7segment =
  segmentId :: string
  fieldList :: "string list"
  fieldSeparator :: char
  componentSeparator :: char
  subcomponentSeparator :: char

text \<open>\<open>extractValueFromSegment\<close> (the filtering version of the module).\<close>

definition extractValueFromSegment ::
  "hl7segment \<Rightarrow> int \<Rightarrow> int option \<Rightarrow> int option \<Rightarrow> char \<Rightarrow> char \<Rightarrow> string" where
  "extractValueFromSegment seg fieldNum compNum subcompNum compSep subcompSep =
     (if segmentId seg = ''MSH'' then
        (if fieldNum = 1 then [fieldSeparator seg]
         else if fieldNum = 2 then (case fieldList seg of [] \<Rightarrow> [] | f # _ \<Rightarrow> f)
         else
           let fieldIndex = fieldNum - 2 in
           if fieldIndex < 0 \<or> fieldIndex \<ge> int (length (fieldList seg)) then []
           else extractComponentValue (fieldList seg ! nat fieldIndex)
                  compNum subcompNum compSep subcompSep)
      else
        let fieldIndex = fieldNum - 1 in
        if fieldIndex < 0 \<or> fieldIndex \<ge> int (length (fieldList seg)) then []
        else extractComponentValue (fieldList seg ! nat fieldIndex)
               compNum subcompNum compSep subcompSep)"

text \<open>
  \<open>substring(a, b)\<close> with \<open>a \<le> b\<close>, and \<open>substring(a)\<close>, as the source calls them.
\<close>

definition substring :: "nat \<Rightarrow> nat \<Rightarrow> string \<Rightarrow> string" where
  "substring a b s = take (b - a) (drop a s)"

text \<open>\<open>extractValueFromLine\<close> (the line-based version of the module).\<close>

definition extractValueFromLine ::
  "string \<Rightarrow> string \<Rightarrow> int \<Rightarrow> int option \<Rightarrow> int option \<Rightarrow> char \<Rightarrow> char \<Rightarrow> char \<Rightarrow> string" where
  "extractValueFromLine line segId fieldNum compNum subcompNum fieldSep compSep subcompSep =
     (if segId = ''MSH'' then
        (if fieldNum = 1 then [fieldSep]
         else if fieldNum = 2 then substring 4 8 line
         else
           let afterSep = drop 4 line;
               flds = splitOn fieldSep afterSep;
               fieldIndex = fieldNum - 2
           in if fieldIndex < 0 \<or> fieldIndex \<ge> int (length flds) then []
              else extractComponentValue (flds ! nat fieldIndex)
                     compNum subcompNum compSep subcompSep)
      else
        let afterId = drop 3 line;
            flds = (if startsWith afterId [fieldSep] then splitOn fieldSep (drop 1 afterId)
                    else splitOn fieldSep afterId);
            fieldIndex = fieldNum - 1
        in if fieldIndex < 0 \<or> fieldIndex \<ge> int (length flds) then []
           else extractComponentValue (flds ! nat fieldIndex)
                  compNum subcompNum compSep subcompSep)"

text \<open>
  The field list the segmenter stores for a line (the block computing \<open>fields\<close> in
  \<open>parseMessagesForFiltering\<close>, the same splitting \<open>extractValueFromLine\<close> does).
\<close>

definition parseFields :: "string \<Rightarrow> string \<Rightarrow> char \<Rightarrow> string list" where
  "parseFields segId trimmedLine fieldSep =
     (if segId = ''MSH'' then splitOn fieldSep (drop 4 trimmedLine)
      else
        let afterId = drop 3 trimmedLine in
        if startsWith afterId [fieldSep] then splitOn fieldSep (drop 1 afterId)
        else splitOn fieldSep afterId)"

section \<open>Filter grammar\<close>

text \<open>
  The regular expression \<open>^(.+?)\s+(!exists|exists)\s*$\<close> with flag \<open>i\<close>. The lazy
  group takes the shortest prefix of at least one character, none of them a line
  terminator, after which the rest is white space, the operator and white space up to
  the end. \<open>unaryRest\<close> matches that rest and returns the operator as written.
\<close>

definition startsWithCI :: "string \<Rightarrow> string \<Rightarrow> bool" where
  "startsWithCI s t = (map upperChar (take (length t) s) = map upperChar t)"

definition unaryRest :: "string \<Rightarrow> string option" where
  "unaryRest r =
     (let r1 = dropWhile isSpace r in
      if length r1 = length r then None
      else if startsWithCI r1 ''!exists'' \<and> dropWhile isSpace (drop 7 r1) = []
        then Some (take 7 r1)
      else if startsWithCI r1 ''exists'' \<and> dropWhile isSpace (drop 6 r1) = []
        then Some (take 6 r1)
      else None)"

fun unaryMatchFrom :: "string \<Rightarrow> string \<Rightarrow> (string \<times> string) option" where
  "unaryMatchFrom pre [] = None"
| "unaryMatchFrom pre (x # xs) =
     (if x = LF \<or> x = CR then None
      else
        (case unaryRest xs of
           Some opr \<Rightarrow> Some (pre @ [x], opr)
         | None \<Rightarrow> unaryMatchFrom (pre @ [x]) xs))"

definition unaryMatch :: "string \<Rightarrow> (string \<times> string) option" where
  "unaryMatch trimmed = unaryMatchFrom [] trimmed"

text \<open>
  \<open>s.split(/\s*OP\s*/i)\<close> for a literal operator \<open>OP\<close>: at each position the
  pattern is tried (white space, the operator in any case, white space); a match ends
  the current part and the scan goes on after it. A match that consumes nothing does
  not split (the operators of the source are never empty).
\<close>

definition matchOpAt :: "string \<Rightarrow> string \<Rightarrow> string option" where
  "matchOpAt opr s =
     (let s1 = dropWhile isSpace s in
      if startsWithCI s1 opr then Some (dropWhile isSpace (drop (length opr) s1)) else None)"

function splitOpAcc :: "string \<Rightarrow> string \<Rightarrow> string \<Rightarrow> string list" where
  "splitOpAcc opr cur [] = [rev cur]"
| "splitOpAcc opr cur (x # xs) =
     (case matchOpAt opr (x # xs) of
        Some rest \<Rightarrow>
          if length rest < Suc (length xs) then rev cur # splitOpAcc opr [] rest
          else splitOpAcc opr (x # cur) xs
      | None \<Rightarrow> splitOpAcc opr (x # cur) xs)"
  by pat_completeness auto
termination
  by (relation "measure (\<lambda>(opr, cur, s). length s)") auto

definition splitOp :: "string \<Rightarrow> string \<Rightarrow> string list" where
  "splitOp opr s = splitOpAcc opr [] s"

record parsedFilter =
  fieldRef :: string
  operator :: string
  valueText :: string

text \<open>The loop over \<open>['!=', '=', '!contains', 'contains']\<close> of \<open>parseFilterExpression\<close>.\<close>

fun tryOperators :: "string \<Rightarrow> string list \<Rightarrow> parsedFilter option" where
  "tryOperators trimmed [] = None"
| "tryOperators trimmed (opr # oprs) =
     (let parts = splitOp opr trimmed in
      if length parts = 2 then
        (let fr = trim (parts ! 0); v = trim (parts ! 1) in
         if fr \<noteq> [] \<and> parseFieldReference fr \<noteq> None
         then Some \<lparr>fieldRef = fr, operator = toLowerCase opr, valueText = v\<rparr>
         else tryOperators trimmed oprs)
      else tryOperators trimmed oprs)"

definition parseFilterExpression :: "string \<Rightarrow> parsedFilter option" where
  "parseFilterExpression filterExpr =
     (if filterExpr = [] then None
      else
        let trimmed = trim filterExpr in
        if trimmed = [] then None
        else
          (case (case unaryMatch trimmed of
                   Some (g1, g2) \<Rightarrow>
                     (let fr = trim g1; opr = toLowerCase g2 in
                      if fr \<noteq> [] \<and> parseFieldReference fr \<noteq> None
                      then Some \<lparr>fieldRef = fr, operator = opr, valueText = []\<rparr>
                      else None)
                 | None \<Rightarrow> None) of
             Some r \<Rightarrow> Some r
           | None \<Rightarrow> tryOperators trimmed [''!='', ''='', ''!contains'', ''contains'']))"

section \<open>Evaluating one condition\<close>

definition messageMatchesSingleFilter ::
  "hl7segment list \<Rightarrow> parsedFilter \<Rightarrow> char \<Rightarrow> char \<Rightarrow> bool" where
  "messageMatchesSingleFilter messageSegments flt compSep subcompSep =
     (case parseFieldReference (fieldRef flt) of
        None \<Rightarrow> True
      | Some parsed \<Rightarrow>
          (case find (\<lambda>sg. segmentId sg = segment parsed) messageSegments of
             None \<Rightarrow>
               operator flt = ''!='' \<or> operator flt = ''!contains'' \<or> operator flt = ''!exists''
           | Some sg \<Rightarrow>
               let v = extractValueFromSegment sg (field parsed) (component parsed)
                         (subcomponent parsed) compSep subcompSep;
                   fieldValue = toUpperCase (trim v);
                   filterValue = toUpperCase (trim (valueText flt))
               in if operator flt = ''='' then fieldValue = filterValue
                  else if operator flt = ''!='' then fieldValue \<noteq> filterValue
                  else if operator flt = ''contains'' then includesStr fieldValue filterValue
                  else if operator flt = ''!contains'' then \<not> includesStr fieldValue filterValue
                  else if operator flt = ''exists'' then length fieldValue > 0
                  else if operator flt = ''!exists'' then length fieldValue = 0
                  else True))"

section \<open>Objects with string keys\<close>

text \<open>
  A JavaScript object used as a dictionary is an association list in insertion order:
  assigning to a key it has keeps the key's place. \<open>Object.keys\<close>, \<open>Object.values\<close>
  and \<open>Object.entries\<close> list the keys that are array indices first (canonical
  decimal numerals below \<open>2^32 - 1\<close>, in ascending order), then the others in
  insertion order. Keys naming a member of \<open>Object.prototype\<close> are outside the model.
\<close>

fun objSet :: "(string \<times> 'v) list \<Rightarrow> string \<Rightarrow> 'v \<Rightarrow> (string \<times> 'v) list" where
  "objSet [] k v = [(k, v)]"
| "objSet ((k', v') # kvs) k v = (if k' = k then (k, v) # kvs else (k', v') # objSet kvs k v)"

definition isArrayIndex :: "string \<Rightarrow> bool" where
  "isArrayIndex k =
     (k \<noteq> [] \<and> list_all isDigit k \<and> (k = ''0'' \<or> hd k \<noteq> CHR ''0'')
      \<and> decimalValue k < 4294967295)"

definition objEntries :: "(string \<times> 'v) list \<Rightarrow> (string \<times> 'v) list" where
  "objEntries kvs =
     sort_key (\<lambda>kv. decimalValue (fst kv)) (filter (\<lambda>kv. isArrayIndex (fst kv)) kvs)
       @ filter (\<lambda>kv. \<not> isArrayIndex (fst kv)) kvs"

definition objKeys :: "(string \<times> 'v) list \<Rightarrow> string list" where
  "objKeys kvs = map fst (objEntries kvs)"

definition objValues :: "(string \<times> 'v) list \<Rightarrow> 'v list" where
  "objValues kvs = map snd (objEntries kvs)"

text \<open>Reading a boolean entry for its truth value: a missing entry is \<open>undefined\<close>, falsy.\<close>

definition objTruthy :: "(string \<times> bool) list \<Rightarrow> string \<Rightarrow> bool" where
  "objTruthy kvs k = (case map_of kvs k of Some v \<Rightarrow> v | None \<Rightarrow> False)"

text \<open>\<open>xs.sort((a, b) => b.length - a.length)\<close>: a stable sort, longest first.\<close>

definition sortByLengthDesc :: "string list \<Rightarrow> string list" where
  "sortByLengthDesc xs = sort_key (\<lambda>l. - int (length l)) xs"

section \<open>Boolean combinator\<close>

text \<open>
  \<open>s.replace(new RegExp('\\b' + w + '\\b', 'g'), rep)\<close> for a word \<open>w\<close> without
  regular-expression metacharacters (the labels of the filter rows are \<open>F1\<close>,
  \<open>F2\<close>, ...; the keywords are \<open>AND\<close>, \<open>OR\<close>, \<open>NOT\<close>): every occurrence of \<open>w\<close>
  with a word boundary on both sides is replaced, scanning from the left. The flag
  \<open>pw\<close> says whether the character before the current position is a word character.
\<close>

definition boundaryAfter :: "string \<Rightarrow> string \<Rightarrow> bool" where
  "boundaryAfter w rest =
     (isWord (last w) \<noteq> (case rest of [] \<Rightarrow> False | y # _ \<Rightarrow> isWord y))"

function replaceWordFrom :: "string \<Rightarrow> string \<Rightarrow> bool \<Rightarrow> string \<Rightarrow> string" where
  "replaceWordFrom w rep pw [] = []"
| "replaceWordFrom w rep pw (x # xs) =
     (if w \<noteq> [] \<and> startsWith (x # xs) w \<and> pw \<noteq> isWord (hd w)
         \<and> boundaryAfter w (drop (length w) (x # xs))
      then rep @ replaceWordFrom w rep (isWord (last w)) (drop (length w) (x # xs))
      else x # replaceWordFrom w rep (isWord x) xs)"
  by pat_completeness auto
termination
  by (relation "measure (\<lambda>(w, rep, pw, s). length s)") auto

definition replaceWord :: "string \<Rightarrow> string \<Rightarrow> string \<Rightarrow> string" where
  "replaceWord w rep s = replaceWordFrom w rep False s"

text \<open>
  The code-execution facility of the host, \<open>Function(body)()\<close>, is a parameter of the
  model: given the source text of a function body it returns \<open>None\<close> when compiling
  or running it throws, and otherwise the truth value (truthiness) of what it returns.
\<close>

type_synonym jsFunction = "string \<Rightarrow> bool option"

definition allowedChar :: "char \<Rightarrow> bool" where
  "allowedChar c = (c \<in> set ''truefalseTRUEFALSE&|!() '')"

text \<open>The text \<open>evaluateCustomLogic\<close> builds from the expression before the check.\<close>

definition substituteLogic :: "string \<Rightarrow> (string \<times> bool) list \<Rightarrow> string" where
  "substituteLogic expression filterResults =
     (let evalExpr = toUpperCase expression;
          labels = sortByLengthDesc (objKeys filterResults);
          evalExpr1 = foldl (\<lambda>e l. replaceWord (toUpperCase l)
                         (if objTruthy filterResults l then ''true'' else ''false'') e)
                        evalExpr labels
      in replaceWord ''NOT'' ''!'' (replaceWord ''OR'' ''||'' (replaceWord ''AND'' ''&&'' evalExpr1)))"

definition functionBody :: "string \<Rightarrow> string" where
  "functionBody evalExpr = [CHR 0x22] @ ''use strict'' @ [CHR 0x22] @ ''; return ('' @ evalExpr @ '')''"

definition evaluateCustomLogic :: "jsFunction \<Rightarrow> string \<Rightarrow> (string \<times> bool) list \<Rightarrow> bool" where
  "evaluateCustomLogic jsf expression filterResults =
     (let evalExpr = substituteLogic expression filterResults in
      if \<not> (evalExpr \<noteq> [] \<and> list_all allowedChar evalExpr) then True
      else (case jsf (functionBody evalExpr) of None \<Rightarrow> True | Some b \<Rightarrow> b))"

record filterEntry =
  label :: string
  expression :: string

record filtersConfig =
  filters :: "filterEntry list"
  logic :: string
  logicExpression :: "string option"

text \<open>The result one condition contributes to \<open>filterResults\<close> (the \<open>forEach\<close> body).\<close>

definition filterResult :: "hl7segment list \<Rightarrow> filterEntry \<Rightarrow> char \<Rightarrow> char \<Rightarrow> bool" where
  "filterResult messageSegments f compSep subcompSep =
     (case parseFilterExpression (expression f) of
        Some parsedFlt \<Rightarrow> messageMatchesSingleFilter messageSegments parsedFlt compSep subcompSep
      | None \<Rightarrow> True)"

definition buildFilterResults ::
  "hl7segment list \<Rightarrow> filterEntry list \<Rightarrow> char \<Rightarrow> char \<Rightarrow> (string \<times> bool) list" where
  "buildFilterResults messageSegments fs compSep subcompSep =
     foldl (\<lambda>res f. objSet res (label f) (filterResult messageSegments f compSep subcompSep)) [] fs"

definition messageMatchesFilters ::
  "jsFunction \<Rightarrow> hl7segment list \<Rightarrow> filtersConfig option \<Rightarrow> char \<Rightarrow> char \<Rightarrow> bool" where
  "messageMatchesFilters jsf messageSegments config compSep subcompSep =
     (case config of
        None \<Rightarrow> True
      | Some cfg \<Rightarrow>
          if filters cfg = [] then True
          else
            let fs = filters cfg;
                filterResults = buildFilterResults messageSegments fs compSep subcompSep
            in if logic cfg = ''single'' \<or> length fs = 1
                 then objTruthy filterResults (label (fs ! 0))
               else if logic cfg = ''AND'' then list_all (\<lambda>r. r = True) (objValues filterResults)
               else if logic cfg = ''OR'' then list_ex (\<lambda>r. r = True) (objValues filterResults)
               else if logic cfg = ''custom'' \<and> logicExpression cfg \<noteq> None
                       \<and> logicExpression cfg \<noteq> Some []
                 then evaluateCustomLogic jsf (the (logicExpression cfg)) filterResults
               else list_all (\<lambda>r. r = True) (objValues filterResults))"

section \<open>Validation of custom logic\<close>

datatype validation = Valid | Invalid string

text \<open>The loop counting parentheses: \<open>None\<close> when the count goes below zero.\<close>

fun parenScan :: "int \<Rightarrow> string \<Rightarrow> int option" where
  "parenScan n [] = Some n"
| "parenScan n (c # cs) =
     (let n1 = (if c = CHR ''('' then n + 1 else n);
          n2 = (if c = CHR '')'' then n1 - 1 else n1)
      in if n2 < 0 then None else parenScan n2 cs)"

text \<open>\<open>s.match(/F\d+/gi)\<close>: the matches from left to right (empty list for \<open>null\<close>).\<close>

function matchFilterRefs :: "string \<Rightarrow> string list" where
  "matchFilterRefs [] = []"
| "matchFilterRefs (x # xs) =
     (if (x = CHR ''F'' \<or> x = CHR ''f'') \<and> takeWhile isDigit xs \<noteq> []
      then (x # takeWhile isDigit xs) # matchFilterRefs (dropWhile isDigit xs)
      else matchFilterRefs xs)"
  by pat_completeness auto
termination
  by (relation "measure length") (auto simp: length_dropWhile_le less_Suc_eq_le)

definition isOperatorChar :: "char \<Rightarrow> bool" where
  "isOperatorChar c = (c = CHR ''&'' \<or> c = CHR ''|'')"

text \<open>\<open>/[&|]{2,}/\<close> and \<open>/![&|]/\<close>: two adjacent characters somewhere in the text.\<close>

fun adjacentPair :: "(char \<Rightarrow> bool) \<Rightarrow> (char \<Rightarrow> bool) \<Rightarrow> string \<Rightarrow> bool" where
  "adjacentPair P Q (x # y # ys) = ((P x \<and> Q y) \<or> adjacentPair P Q (y # ys))"
| "adjacentPair P Q _ = False"

definition placeholderChar :: "char \<Rightarrow> bool" where
  "placeholderChar c = (c \<in> set ''X&|!'')"

text \<open>
  The text \<open>validateCustomLogic\<close> checks: in the upper-cased expression the declared
  labels (longest first) become \<open>X\<close>, the keywords become \<open>&\<close>, \<open>|\<close> and \<open>!\<close>,
  and white space and parentheses are removed (\<open>replace(/[\s()]/g, '')\<close>).
\<close>

definition keptChar :: "char \<Rightarrow> bool" where
  "keptChar c = (\<not> (isSpace c \<or> c = CHR ''('' \<or> c = CHR '')''))"

definition simplifiedLogic :: "string \<Rightarrow> string list \<Rightarrow> string" where
  "simplifiedLogic e availableLabels =
     (let sortedLabels = sortByLengthDesc availableLabels;
          normalized = foldl (\<lambda>n l. replaceWord (toUpperCase l) ''X'' n) e sortedLabels;
          normalized2 = replaceWord ''NOT'' ''!''
                          (replaceWord ''OR'' ''|'' (replaceWord ''AND'' ''&'' normalized))
      in filter keptChar normalized2)"

definition validateCustomLogic :: "string \<Rightarrow> string list \<Rightarrow> validation" where
  "validateCustomLogic expr availableLabels =
     (if expr = [] \<or> trim expr = [] then Invalid ''Custom logic expression is empty''
      else
        let e = toUpperCase (trim expr) in
        (case parenScan 0 e of
           None \<Rightarrow> Invalid ''Unbalanced parentheses - extra closing parenthesis''
         | Some parenCount \<Rightarrow>
             if parenCount \<noteq> 0
               then Invalid ''Unbalanced parentheses - missing closing parenthesis''
             else
               let simplified = simplifiedLogic e availableLabels;
                   unmatchedFilters = matchFilterRefs simplified
               in if unmatchedFilters \<noteq> [] then
                    Invalid (''Unknown filter label(s): '' @ join '', '' unmatchedFilters
                             @ ''. Available labels: '' @ join '', '' availableLabels)
                  else if \<not> (simplified \<noteq> [] \<and> list_all placeholderChar simplified)
                          \<and> filter (\<lambda>c. \<not> placeholderChar c) simplified \<noteq> [] then
                    Invalid (''Invalid characters or words in expression. Use only filter labels (''
                             @ join '', '' availableLabels @ ''), AND, OR, NOT, and parentheses.'')
                  else if (case simplified of [] \<Rightarrow> False | c # _ \<Rightarrow> isOperatorChar c) then
                    Invalid ''Expression cannot start with AND/OR''
                  else if simplified \<noteq> []
                          \<and> (isOperatorChar (last simplified) \<or> last simplified = CHR ''!'') then
                    Invalid ''Expression cannot end with AND/OR/NOT''
                  else if adjacentPair isOperatorChar isOperatorChar simplified then
                    Invalid ''Cannot have consecutive AND/OR operators''
                  else if adjacentPair (\<lambda>c. c = CHR ''!'') isOperatorChar simplified then
                    Invalid ''NOT must be followed by a filter label, not AND/OR''
                  else if includesStr simplified ''X!'' then
                    Invalid ''Missing AND/OR between filter label and NOT''
                  else if includesStr simplified ''XX'' then
                    Invalid ''Missing AND/OR between filter labels''
                  else Valid))"

section \<open>Message segmenter\<close>

record hl7message =
  msgFieldSeparator :: char
  msgComponentSeparator :: char
  msgSubcomponentSeparator :: char
  segments :: "hl7segment list"

text \<open>\<open>content.split(/\r\n|\n|\r/)\<close>.\<close>

fun splitLinesAcc :: "string \<Rightarrow> string \<Rightarrow> string list" where
  "splitLinesAcc cur [] = [rev cur]"
| "splitLinesAcc cur [x] =
     (if x = CR \<or> x = LF then [rev cur, []] else [rev (x # cur)])"
| "splitLinesAcc cur (x # y # ys) =
     (if x = CR \<and> y = LF then rev cur # splitLinesAcc [] ys
      else if x = LF \<or> x = CR then rev cur # splitLinesAcc [] (y # ys)
      else splitLinesAcc (x # cur) (y # ys))"

definition splitLines :: "string \<Rightarrow> string list" where
  "splitLines content = splitLinesAcc [] content"

text \<open>
  The variables of the loop of \<open>parseMessagesForFiltering\<close>: the messages closed so
  far, the open message and the three separators in force.
\<close>

record segmenterState =
  messages :: "hl7message list"
  currentMessage :: "hl7message option"
  curFieldSeparator :: char
  curComponentSeparator :: char
  curSubcomponentSeparator :: char

definition openMessage :: "segmenterState \<Rightarrow> string \<Rightarrow> segmenterState" where
  "openMessage st trimmedLine =
     (let msgs = (case currentMessage st of Some m \<Rightarrow> messages st @ [m] | None \<Rightarrow> messages st);
          fsep = (if length trimmedLine > 3 then trimmedLine ! 3 else curFieldSeparator st);
          csep = (if length trimmedLine > 7 then substring 4 8 trimmedLine ! 0
                  else curComponentSeparator st);
          ssep = (if length trimmedLine > 7 then substring 4 8 trimmedLine ! 3
                  else curSubcomponentSeparator st)
      in \<lparr>messages = msgs,
          currentMessage = Some \<lparr>msgFieldSeparator = fsep, msgComponentSeparator = csep,
                                  msgSubcomponentSeparator = ssep, segments = []\<rparr>,
          curFieldSeparator = fsep, curComponentSeparator = csep,
          curSubcomponentSeparator = ssep\<rparr>)"

text \<open>
  One round of the loop. The table \<open>HL7_SEGMENT_IDS\<close> of known segment kinds is
  defined outside the statistics module; it is the parameter \<open>ids\<close>.
\<close>

definition segmenterStep :: "string list \<Rightarrow> segmenterState \<Rightarrow> string \<Rightarrow> segmenterState" where
  "segmenterStep ids st line =
     (let trimmedLine = trim line in
      if trimmedLine = [] then st
      else
        let segId = substring 0 3 trimmedLine;
            st1 = (if segId = ''MSH'' then openMessage st trimmedLine else st)
        in (case currentMessage st1 of
              None \<Rightarrow> st1
            | Some m \<Rightarrow>
                if segId \<in> set ids then
                  st1\<lparr>currentMessage := Some (m\<lparr>segments := segments m @
                    [\<lparr>segmentId = segId,
                      fieldList = parseFields segId trimmedLine (curFieldSeparator st1),
                      fieldSeparator = curFieldSeparator st1,
                      componentSeparator = curComponentSeparator st1,
                      subcomponentSeparator = curSubcomponentSeparator st1\<rparr>]\<rparr>)\<rparr>
                else st1))"

definition parseMessagesForFiltering :: "string list \<Rightarrow> string \<Rightarrow> hl7message list" where
  "parseMessagesForFiltering ids content =
     (let st = foldl (segmenterStep ids)
                 \<lparr>messages = [], currentMessage = None, curFieldSeparator = CHR ''|'',
                  curComponentSeparator = CHR ''^'', curSubcomponentSeparator = CHR ''&''\<rparr>
                 (splitLines content)
      in case currentMessage st of Some m \<Rightarrow> messages st @ [m] | None \<Rightarrow> messages st)"

section \<open>Aggregation engine: extraction\<close>

record extraction =
  messageIndex :: nat
  extracted :: string

record extractionResult =
  results :: "extraction list"
  totalMessages :: nat
  filteredMessages :: nat
  filterApplied :: bool
  filterExpression :: string
  appliedConfig :: "filtersConfig option"
  filteredHL7Content :: string
  filterOnly :: bool

text \<open>The text of one segment and of the export (\<open>filteredHL7Content\<close>).\<close>

definition segmentText :: "hl7segment \<Rightarrow> string" where
  "segmentText sg =
     (if segmentId sg = ''MSH''
      then segmentId sg @ [fieldSeparator sg] @ join [fieldSeparator sg] (fieldList sg)
      else segmentId sg @ [fieldSeparator sg] @ join [fieldSeparator sg] (fieldList sg))"

definition messageText :: "hl7message \<Rightarrow> string" where
  "messageText msg = join [CR] (map segmentText (segments msg))"

definition exportText :: "hl7message list \<Rightarrow> string" where
  "exportText msgs = join [CR, CR, LF] (map messageText msgs)"

text \<open>The extractions one filtered message contributes (the \<open>forEach\<close> body).\<close>

definition extractionsOf :: "fieldReference \<Rightarrow> nat \<Rightarrow> hl7message \<Rightarrow> extraction list" where
  "extractionsOf parsed idx msg =
     (let matchingSegments = filter (\<lambda>sg. segmentId sg = segment parsed) (segments msg) in
      if length matchingSegments = 0 then [\<lparr>messageIndex = idx, extracted = []\<rparr>]
      else map (\<lambda>sg. \<lparr>messageIndex = idx,
                      extracted = extractValueFromSegment sg (field parsed) (component parsed)
                        (subcomponent parsed) (msgComponentSeparator msg)
                        (msgSubcomponentSeparator msg)\<rparr>) matchingSegments)"

definition extractAll :: "fieldReference \<Rightarrow> hl7message list \<Rightarrow> extraction list" where
  "extractAll parsed msgs =
     concat (map (\<lambda>(idx, msg). extractionsOf parsed idx msg) (enumerate 0 msgs))"

definition filterDescriptionOf :: "filtersConfig \<Rightarrow> string" where
  "filterDescriptionOf cfg =
     (if length (filters cfg) = 1 then expression (filters cfg ! 0)
      else
        let filterLabels = join '', '' (map (\<lambda>f. label f @ '': '' @ expression f) (filters cfg)) in
        if logic cfg = ''custom''
        then filterLabels @ '' [Logic: '' @ (case logicExpression cfg of Some e \<Rightarrow> e | None \<Rightarrow> ''null'') @ '']''
        else filterLabels @ '' [Logic: '' @ logic cfg @ '']'')"

text \<open>
  The messages \<open>extractFieldValues\<close> keeps: all of them without a filter set,
  those that \<open>messageMatchesFilters\<close> accepts with one.
\<close>

definition selectMessages ::
  "jsFunction \<Rightarrow> filtersConfig option \<Rightarrow> hl7message list \<Rightarrow> hl7message list" where
  "selectMessages jsf config msgs =
     (if (case config of None \<Rightarrow> False | Some cfg \<Rightarrow> filters cfg \<noteq> [])
      then filter (\<lambda>msg. messageMatchesFilters jsf (segments msg) config
                    (msgComponentSeparator msg) (msgSubcomponentSeparator msg)) msgs
      else msgs)"

text \<open>
  \<open>extractFieldValues\<close>. An absent \<open>fieldRef\<close> is the empty string, an absent
  \<open>filtersConfig\<close> is \<open>None\<close>; \<open>Inl\<close> carries the text of the \<open>error\<close> result.
\<close>

definition extractFieldValues ::
  "jsFunction \<Rightarrow> string list \<Rightarrow> string \<Rightarrow> string \<Rightarrow> filtersConfig option
     \<Rightarrow> string + extractionResult" where
  "extractFieldValues jsf ids content fref config =
     (let isFilterOnly = (fref = [] \<or> trim fref = []);
          parsed = (if isFilterOnly then None else parseFieldReference fref)
      in if \<not> isFilterOnly \<and> parsed = None
           then Inl ''Invalid field reference. Use format like PID.5, FT1.13, or MSH.9.1''
         else
           let msgs = parseMessagesForFiltering ids content;
               total = length msgs;
               applies = (case config of None \<Rightarrow> False | Some cfg \<Rightarrow> filters cfg \<noteq> []);
               invalidFilters = (case config of None \<Rightarrow> []
                  | Some cfg \<Rightarrow> map label (filter (\<lambda>f. parseFilterExpression (expression f) = None)
                                            (filters cfg)))
           in if applies \<and> invalidFilters \<noteq> [] then
                Inl (''Invalid filter format for '' @ join '', '' invalidFilters
                     @ ''. Use format like '' @ [CHR 0x22] @ ''PV1.2 = E'' @ [CHR 0x22] @ '', ''
                     @ [CHR 0x22] @ ''PV1.2 != E'' @ [CHR 0x22] @ '', ''
                     @ [CHR 0x22] @ ''PV1.2 contains E'' @ [CHR 0x22] @ '', or ''
                     @ [CHR 0x22] @ ''PV1.2 exists'' @ [CHR 0x22])
              else if applies \<and> logic (the config) = ''custom''
                      \<and> (logicExpression (the config) = None
                          \<or> logicExpression (the config) = Some []
                          \<or> trim (the (logicExpression (the config))) = []) then
                Inl (''Please enter a custom logic expression (e.g., '' @ [CHR 0x22]
                     @ ''F1 AND (F2 OR F3)'' @ [CHR 0x22] @ '')'')
              else
                (case (if applies \<and> logic (the config) = ''custom''
                       then validateCustomLogic (the (logicExpression (the config)))
                              (map label (filters (the config)))
                       else Valid) of
                   Invalid err \<Rightarrow> Inl (''Invalid custom logic: '' @ err)
                 | Valid \<Rightarrow>
                     let filtered = selectMessages jsf config msgs in Inr \<lparr>results = (case parsed of None \<Rightarrow> []
                                         | Some pr \<Rightarrow> extractAll pr filtered),
                             totalMessages = total,
                             filteredMessages = length filtered,
                             filterApplied = applies,
                             filterExpression = (if applies then filterDescriptionOf (the config) else []),
                             appliedConfig = (if applies then config else None),
                             filteredHL7Content = (if applies then exportText filtered else []),
                             filterOnly = isFilterOnly\<rparr>))"

section \<open>Aggregation engine: statistics\<close>

text \<open>
  The counting loop of \<open>generateStatistics\<close>: the object \<open>valueCounts\<close> and the two
  sets of message indices (lists without repetition, in insertion order).
\<close>

definition displayValueOf :: "string \<Rightarrow> string" where
  "displayValueOf v = (if trim v = [] then ''(empty)'' else trim v)"

definition bumpCount :: "(string \<times> nat) list \<Rightarrow> string \<Rightarrow> (string \<times> nat) list" where
  "bumpCount valueCounts k =
     (case map_of valueCounts k of
        None \<Rightarrow> objSet valueCounts k 1
      | Some n \<Rightarrow> objSet valueCounts k (n + 1))"

definition setAdd :: "nat list \<Rightarrow> nat \<Rightarrow> nat list" where
  "setAdd xs x = (if x \<in> set xs then xs else xs @ [x])"

record countingState =
  valueCounts :: "(string \<times> nat) list"
  messageHasValue :: "nat list"
  messageHasNoValue :: "nat list"

definition countStep :: "countingState \<Rightarrow> extraction \<Rightarrow> countingState" where
  "countStep st item =
     (let v = trim (extracted item);
          st1 = st\<lparr>valueCounts := bumpCount (valueCounts st) (displayValueOf (extracted item))\<rparr>
      in if v \<noteq> [] then st1\<lparr>messageHasValue := setAdd (messageHasValue st1) (messageIndex item)\<rparr>
         else st1\<lparr>messageHasNoValue := setAdd (messageHasNoValue st1) (messageIndex item)\<rparr>)"

definition countAll :: "extraction list \<Rightarrow> countingState" where
  "countAll rs = foldl countStep \<lparr>valueCounts = [], messageHasValue = [], messageHasNoValue = []\<rparr> rs"

record statistics =
  statTotalMessages :: nat
  statFilteredMessages :: "nat option"
  statFilterApplied :: bool
  statFilterExpression :: string
  messagesWithValue :: int
  messagesWithoutValue :: int
  totalOccurrences :: nat
  distinctValues :: "(string \<times> nat) list"
  segmentNotFound :: bool
  statFilteredHL7Content :: string

record filterOnlyStatistics =
  foTotalMessages :: nat
  foFilteredMessages :: "nat option"
  foFilterApplied :: bool
  foFilterExpression :: string
  foFilteredHL7Content :: string

datatype statisticsResult =
  StatsError string
| FilterOnlyStats filterOnlyStatistics
| FieldStats statistics

definition generateStatistics :: "string + extractionResult \<Rightarrow> statisticsResult" where
  "generateStatistics extractionRes =
     (case extractionRes of
        Inl err \<Rightarrow> StatsError err
      | Inr r \<Rightarrow>
          let messageCount = (if filterApplied r then filteredMessages r else totalMessages r) in
          if filterOnly r then
            FilterOnlyStats \<lparr>foTotalMessages = totalMessages r,
              foFilteredMessages = (if filterApplied r then Some (filteredMessages r) else None),
              foFilterApplied = filterApplied r,
              foFilterExpression = filterExpression r,
              foFilteredHL7Content = filteredHL7Content r\<rparr>
          else
            let st = countAll (results r);
                withValue = int (length (messageHasValue st));
                messagesWithOnlyEmpty =
                  int (length (filter (\<lambda>m. m \<notin> set (messageHasValue st)) (messageHasNoValue st)));
                messagesWithSegment =
                  int (length (remdups (messageHasValue st @ messageHasNoValue st)));
                messagesWithoutSegment = int messageCount - messagesWithSegment;
                sortedValues = sort_key (\<lambda>kv. - int (snd kv)) (objEntries (valueCounts st))
            in FieldStats \<lparr>statTotalMessages = totalMessages r,
                 statFilteredMessages = (if filterApplied r then Some (filteredMessages r) else None),
                 statFilterApplied = filterApplied r,
                 statFilterExpression = filterExpression r,
                 messagesWithValue = withValue,
                 messagesWithoutValue = messagesWithOnlyEmpty + messagesWithoutSegment,
                 totalOccurrences = length (results r),
                 distinctValues = sortedValues,
                 segmentNotFound = (length (results r) = 0 \<and> \<not> filterApplied r),
                 statFilteredHL7Content = filteredHL7Content r\<rparr>)"

section \<open>Sample data\<close>

text \<open>
  A message holding only its header segment, a filter set of two conditions, and
  four stand-ins for the host's code-execution facility: one that answers true, one
  that answers false, one that throws, and one whose answer depends on a character
  that the check of \<open>evaluateCustomLogic\<close> never lets through.
\<close>

definition mshOnly :: "hl7segment list" where
  "mshOnly = [\<lparr>segmentId = ''MSH'', fieldList = [''^~&'', ''APP''], fieldSeparator = CHR ''|'',
      componentSeparator = CHR ''^'', subcomponentSeparator = CHR ''&''\<rparr>]"

definition twoFilters :: "filterEntry list" where
  "twoFilters = [\<lparr>label = ''F1'', expression = ''MSH.3 = APP''\<rparr>,
                 \<lparr>label = ''F2'', expression = ''PID.5 exists''\<rparr>]"

definition facilityYes :: jsFunction where
  "facilityYes body = Some True"

definition facilityNo :: jsFunction where
  "facilityNo body = Some False"

definition facilityThrows :: jsFunction where
  "facilityThrows body = None"

definition facilityProbe :: jsFunction where
  "facilityProbe body = Some (CHR ''x'' \<in> set body)"

text \<open>
  A table of known segment kinds, the two messages of the specification's examples,
  and a text whose first message has no \<open>PID\<close> segment, with the extraction result
  expected for the address \<open>PID.5.1\<close>.
\<close>

definition sampleIds :: "string list" where
  "sampleIds = [''MSH'', ''PID'']"

definition twoMessages :: string where
  "twoMessages = ''MSH|^~'' @ [CHR 0x5C] @ ''&|A'' @ [CR] @ ''PID|||ID1^^^SYS||DOE^JOHN'' @ [CR]
     @ ''MSH|^~'' @ [CHR 0x5C] @ ''&|A'' @ [CR] @ ''PID|||ID2^^^SYS||SMITH^JANE'' @ [CR]"

definition mixedMessages :: string where
  "mixedMessages = ''MSH|^~'' @ [CHR 0x5C] @ ''&|A'' @ [CR]
     @ ''MSH|^~'' @ [CHR 0x5C] @ ''&|B'' @ [CR] @ ''PID|||ID2^^^SYS||SMITH^JANE'' @ [CR]"

definition mixedResult :: extractionResult where
  "mixedResult = \<lparr>results = [\<lparr>messageIndex = 0, extracted = []\<rparr>,
                               \<lparr>messageIndex = 1, extracted = ''SMITH''\<rparr>],
     totalMessages = 2, filteredMessages = 2, filterApplied = False, filterExpression = [],
     appliedConfig = None, filteredHL7Content = [], filterOnly = False\<rparr>"


section \<open>Reference notions for the round trip\<close>

text \<open>
  These are not functions of the source. \<open>normalizedText\<close> is the text the export is
  compared with: the lines joined by \<open>\r\<close>, and by \<open>\r\r\n\<close> before every later
  header line. \<open>canonicalLines\<close> says that every line is stored as it stands: no white
  space around it, a known kind label, then the field separator in force (a header
  line sets it). \<open>exportState\<close> is the export text of the messages the segmenter holds
  at some point of its loop.
\<close>

fun normalizedText :: "string list \<Rightarrow> string" where
  "normalizedText [] = []"
| "normalizedText [l] = l"
| "normalizedText (l # l' # ls) =
     l @ (if substring 0 3 l' = ''MSH'' then [CR, CR, LF] else [CR]) @ normalizedText (l' # ls)"

fun canonicalLines :: "string list \<Rightarrow> char \<Rightarrow> string list \<Rightarrow> bool" where
  "canonicalLines ids fsep [] = True"
| "canonicalLines ids fsep (l # ls) =
     (trim l = l \<and> substring 0 3 l \<in> set ids \<and> length l > 3
      \<and> (substring 0 3 l = ''MSH'' \<or> l ! 3 = fsep)
      \<and> canonicalLines ids (l ! 3) ls)"

definition exportState :: "segmenterState \<Rightarrow> string" where
  "exportState st =
     exportText (messages st @ (case currentMessage st of Some m \<Rightarrow> [m] | None \<Rightarrow> []))"

definition terminatorBefore :: "string \<Rightarrow> string" where
  "terminatorBefore l = (if substring 0 3 l = ''MSH'' then [CR, CR, LF] else [CR])"

text \<open>
  A filter set that every message with a header passes, a text whose second line is a
  bare kind label, and the result and the lines expected for the two example messages.
\<close>

definition passAll :: filtersConfig where
  "passAll = \<lparr>filters = [\<lparr>label = ''F1'', expression = ''MSH.1 exists''\<rparr>],
              logic = ''single'', logicExpression = None\<rparr>"

definition bareSegment :: string where
  "bareSegment = ''MSH|^~'' @ [CHR 0x5C] @ ''&|A'' @ [CR] @ ''PID''"

definition passAllResult :: extractionResult where
  "passAllResult = \<lparr>results = [], totalMessages = 2, filteredMessages = 2, filterApplied = True,
     filterExpression = ''MSH.1 exists'', appliedConfig = Some passAll,
     filteredHL7Content = ''MSH|^~'' @ [CHR 0x5C] @ ''&|A'' @ [CR] @ ''PID|||ID1^^^SYS||DOE^JOHN''
       @ [CR, CR, LF] @ ''MSH|^~'' @ [CHR 0x5C] @ ''&|A'' @ [CR] @ ''PID|||ID2^^^SYS||SMITH^JANE'',
     filterOnly = True\<rparr>"

definition twoMessagesLines :: "string list" where
  "twoMessagesLines = [''MSH|^~'' @ [CHR 0x5C] @ ''&|A'', ''PID|||ID1^^^SYS||DOE^JOHN'',
     ''MSH|^~'' @ [CHR 0x5C] @ ''&|A'', ''PID|||ID2^^^SYS||SMITH^JANE'']"

definition doeFilter :: filtersConfig where
  "doeFilter = \<lparr>filters = [\<lparr>label = ''F1'', expression = ''PID.5.1 = DOE''\<rparr>],
                logic = ''single'', logicExpression = None\<rparr>"

definition doeResult :: extractionResult where
  "doeResult = \<lparr>results = [], totalMessages = 2, filteredMessages = 1, filterApplied = True,
     filterExpression = ''PID.5.1 = DOE'', appliedConfig = Some doeFilter,
     filteredHL7Content = ''MSH|^~'' @ [CHR 0x5C] @ ''&|A'' @ [CR] @ ''PID|||ID1^^^SYS||DOE^JOHN'',
     filterOnly = True\<rparr>"






definition segmentTexts :: "hl7message list \<Rightarrow> string list" where
  "segmentTexts msgs = concat (map (\<lambda>m. map segmentText (segments m)) msgs)"



definition nonblankLines :: "string \<Rightarrow> string list" where
  "nonblankLines s = filter (\<lambda>l. trim l \<noteq> []) (splitLines s)"







section \<open>Properties of the value resolver\<close>

lemma extractComponentValue_empty [simp]:
  "extractComponentValue [] c s cs ss = []"
  by (simp add: extractComponentValue_def)

lemma extractComponentValue_field_only [simp]:
  "extractComponentValue v None s cs ss = v"
  by (simp add: extractComponentValue_def)

lemma extractValueFromSegment_MSH_other:
  "segmentId seg = ''MSH'' \<Longrightarrow> n \<noteq> 1 \<Longrightarrow> n \<noteq> 2 \<Longrightarrow>
   extractValueFromSegment seg n c s cs ss
     = extractComponentValue (fieldAt (fieldList seg) (n - 2)) c s cs ss"
  by (simp add: extractValueFromSegment_def fieldAt_def Let_def)

lemma extractValueFromSegment_other:
  "segmentId seg \<noteq> ''MSH'' \<Longrightarrow>
   extractValueFromSegment seg n c s cs ss
     = extractComponentValue (fieldAt (fieldList seg) (n - 1)) c s cs ss"
  by (simp add: extractValueFromSegment_def fieldAt_def Let_def)

lemma extractValueFromLine_MSH_other:
  "n \<noteq> 1 \<Longrightarrow> n \<noteq> 2 \<Longrightarrow>
   extractValueFromLine line ''MSH'' n c s fs cs ss
     = extractComponentValue (fieldAt (parseFields ''MSH'' line fs) (n - 2)) c s cs ss"
  by (simp add: extractValueFromLine_def parseFields_def fieldAt_def Let_def)

lemma extractValueFromLine_other:
  "segId \<noteq> ''MSH'' \<Longrightarrow>
   extractValueFromLine line segId n c s fs cs ss
     = extractComponentValue (fieldAt (parseFields segId line fs) (n - 1)) c s cs ss"
  by (simp add: extractValueFromLine_def parseFields_def fieldAt_def Let_def)

text \<open>
  Claim C2. In a header (MSH) segment, field 1 is the field separator itself, field 2
  is the encoding-character block (entry 0 of the stored field list; characters 4 to 7
  of the line in the line-based resolver) and field \<open>n > 2\<close> is entry \<open>n - 2\<close> of the
  field list; in a segment of any other kind field \<open>n\<close> is entry \<open>n - 1\<close>. An entry
  out of range is the empty string. The entry is what a field-level address returns,
  and what the component drill-down starts from otherwise.
\<close>

theorem value_resolver_field_indexing:
  "(segmentId seg = ''MSH'' \<longrightarrow>
      extractValueFromSegment seg 1 c s cs ss = [fieldSeparator seg]
    \<and> extractValueFromSegment seg 2 c s cs ss = fieldAt (fieldList seg) 0
    \<and> (2 < n \<longrightarrow>
          extractValueFromSegment seg n None None cs ss = fieldAt (fieldList seg) (n - 2)
        \<and> extractValueFromSegment seg n c s cs ss
            = extractComponentValue (fieldAt (fieldList seg) (n - 2)) c s cs ss))
   \<and> (segmentId seg \<noteq> ''MSH'' \<longrightarrow>
          extractValueFromSegment seg n None None cs ss = fieldAt (fieldList seg) (n - 1)
        \<and> extractValueFromSegment seg n c s cs ss
            = extractComponentValue (fieldAt (fieldList seg) (n - 1)) c s cs ss)
   \<and> extractValueFromLine line ''MSH'' 1 c s fs cs ss = [fs]
   \<and> extractValueFromLine line ''MSH'' 2 c s fs cs ss = substring 4 8 line
   \<and> (2 < n \<longrightarrow>
          extractValueFromLine line ''MSH'' n None None fs cs ss
            = fieldAt (parseFields ''MSH'' line fs) (n - 2)
        \<and> extractValueFromLine line ''MSH'' n c s fs cs ss
            = extractComponentValue (fieldAt (parseFields ''MSH'' line fs) (n - 2)) c s cs ss)
   \<and> (segId \<noteq> ''MSH'' \<longrightarrow>
          extractValueFromLine line segId n None None fs cs ss
            = fieldAt (parseFields segId line fs) (n - 1)
        \<and> extractValueFromLine line segId n c s fs cs ss
            = extractComponentValue (fieldAt (parseFields segId line fs) (n - 1)) c s cs ss)"
proof -
  have seg1: "segmentId seg = ''MSH'' \<Longrightarrow>
      extractValueFromSegment seg 1 c s cs ss = [fieldSeparator seg]"
    by (simp add: extractValueFromSegment_def)
  have seg2: "segmentId seg = ''MSH'' \<Longrightarrow>
      extractValueFromSegment seg 2 c s cs ss = fieldAt (fieldList seg) 0"
    by (cases "fieldList seg") (simp_all add: extractValueFromSegment_def fieldAt_def)
  have line1: "extractValueFromLine line ''MSH'' 1 c s fs cs ss = [fs]"
    by (simp add: extractValueFromLine_def)
  have line2: "extractValueFromLine line ''MSH'' 2 c s fs cs ss = substring 4 8 line"
    by (simp add: extractValueFromLine_def)
  show ?thesis
    using seg1 seg2 line1 line2
    by (simp add: extractValueFromSegment_MSH_other extractValueFromSegment_other
        extractValueFromLine_MSH_other extractValueFromLine_other)
qed

theorem value_resolver_field_indexing_witness:
  "extractValueFromSegment
     \<lparr>segmentId = ''MSH'', fieldList = [''^~&'', ''APP'', ''FAC''], fieldSeparator = CHR ''|'',
      componentSeparator = CHR ''^'', subcomponentSeparator = CHR ''&''\<rparr>
     3 None None (CHR ''^'') (CHR ''&'') = ''APP''
   \<and> extractValueFromSegment
     \<lparr>segmentId = ''PID'', fieldList = [''1'', ''X^Y''], fieldSeparator = CHR ''|'',
      componentSeparator = CHR ''^'', subcomponentSeparator = CHR ''&''\<rparr>
     2 None None (CHR ''^'') (CHR ''&'') = ''X^Y''
   \<and> extractValueFromLine ''MSH|^~&|APP|FAC'' ''MSH'' 4 None None
        (CHR ''|'') (CHR ''^'') (CHR ''&'') = ''FAC''
   \<and> extractValueFromLine ''PID|1|X^Y'' ''PID'' 2 None None
        (CHR ''|'') (CHR ''^'') (CHR ''&'') = ''X^Y''"
proof -
  have a: "extractValueFromSegment
     \<lparr>segmentId = ''MSH'', fieldList = [''^~&'', ''APP'', ''FAC''], fieldSeparator = CHR ''|'',
      componentSeparator = CHR ''^'', subcomponentSeparator = CHR ''&''\<rparr>
     3 None None (CHR ''^'') (CHR ''&'') = ''APP''"
    using value_resolver_field_indexing
      [of "\<lparr>segmentId = ''MSH'', fieldList = [''^~&'', ''APP'', ''FAC''],
            fieldSeparator = CHR ''|'', componentSeparator = CHR ''^'',
            subcomponentSeparator = CHR ''&''\<rparr>" None None "CHR ''^''" "CHR ''&''" 3]
    by (simp add: fieldAt_def)
  have b: "extractValueFromSegment
     \<lparr>segmentId = ''PID'', fieldList = [''1'', ''X^Y''], fieldSeparator = CHR ''|'',
      componentSeparator = CHR ''^'', subcomponentSeparator = CHR ''&''\<rparr>
     2 None None (CHR ''^'') (CHR ''&'') = ''X^Y''"
    using value_resolver_field_indexing
      [of "\<lparr>segmentId = ''PID'', fieldList = [''1'', ''X^Y''],
            fieldSeparator = CHR ''|'', componentSeparator = CHR ''^'',
            subcomponentSeparator = CHR ''&''\<rparr>" None None "CHR ''^''" "CHR ''&''" 2]
    by (simp add: fieldAt_def)
  have c: "extractValueFromLine ''MSH|^~&|APP|FAC'' ''MSH'' 4 None None
        (CHR ''|'') (CHR ''^'') (CHR ''&'') = ''FAC''"
    using value_resolver_field_indexing
      [of _ None None "CHR ''^''" "CHR ''&''" 4 "''MSH|^~&|APP|FAC''" "CHR ''|''" "''MSH''"]
    by (simp add: fieldAt_def parseFields_def splitOn_def)
  have d: "extractValueFromLine ''PID|1|X^Y'' ''PID'' 2 None None
        (CHR ''|'') (CHR ''^'') (CHR ''&'') = ''X^Y''"
    using value_resolver_field_indexing
      [of _ None None "CHR ''^''" "CHR ''&''" 2 "''PID|1|X^Y''" "CHR ''|''" "''PID''"]
    by (simp add: fieldAt_def parseFields_def splitOn_def startsWith_def)
  show ?thesis using a b c d by simp
qed

section \<open>Properties of the address parser\<close>

text \<open>
  Claim C3. A numeric part that is not a positive integer must give no match. The
  parser reads numbers with \<open>parseInt\<close>, which accepts any text after a leading
  integer: the reference \<open>PID.5abc\<close> is parsed as \<open>PID.5\<close>.
\<close>

theorem parseFieldReference_trailing_text_accepted:
  "parseFieldReference ''PID.5abc''
     = Some \<lparr>segment = ''PID'', field = 5, component = None, subcomponent = None\<rparr>"
  by code_simp

section \<open>Properties of a single condition\<close>

lemma find_no_segment:
  "\<forall>sg \<in> set segs. segmentId sg \<noteq> k \<Longrightarrow> find (\<lambda>sg. segmentId sg = k) segs = None"
  by (simp add: find_None_iff)

text \<open>
  Claim C5. When the message has no segment of the kind the condition addresses, the
  condition is false for the operators \<open>=\<close>, \<open>contains\<close> and \<open>exists\<close> and true
  for \<open>!=\<close>, \<open>!contains\<close> and \<open>!exists\<close>.
\<close>

theorem missing_segment_defaults:
  assumes "parseFieldReference (fieldRef flt) = Some parsed"
    and "\<forall>sg \<in> set segs. segmentId sg \<noteq> segment parsed"
  shows "(operator flt = ''='' \<or> operator flt = ''contains'' \<or> operator flt = ''exists''
            \<longrightarrow> messageMatchesSingleFilter segs flt cs ss = False)
       \<and> (operator flt = ''!='' \<or> operator flt = ''!contains'' \<or> operator flt = ''!exists''
            \<longrightarrow> messageMatchesSingleFilter segs flt cs ss = True)"
  using assms by (auto simp: messageMatchesSingleFilter_def find_no_segment)

theorem missing_segment_defaults_witness:
  "parseFieldReference ''PID.5''
     = Some \<lparr>segment = ''PID'', field = 5, component = None, subcomponent = None\<rparr>
   \<and> messageMatchesSingleFilter mshOnly
       \<lparr>fieldRef = ''PID.5'', operator = ''='', valueText = ''X''\<rparr> (CHR ''^'') (CHR ''&'') = False
   \<and> messageMatchesSingleFilter mshOnly
       \<lparr>fieldRef = ''PID.5'', operator = ''!exists'', valueText = []\<rparr> (CHR ''^'') (CHR ''&'') = True"
proof -
  have p: "parseFieldReference ''PID.5''
      = Some \<lparr>segment = ''PID'', field = 5, component = None, subcomponent = None\<rparr>"
    by code_simp
  have n: "\<forall>sg \<in> set mshOnly. segmentId sg
      \<noteq> segment \<lparr>segment = ''PID'', field = 5, component = None, subcomponent = None\<rparr>"
    by (simp add: mshOnly_def)
  have a: "messageMatchesSingleFilter mshOnly
      \<lparr>fieldRef = ''PID.5'', operator = ''='', valueText = ''X''\<rparr> (CHR ''^'') (CHR ''&'') = False"
    using missing_segment_defaults
      [of "\<lparr>fieldRef = ''PID.5'', operator = ''='', valueText = ''X''\<rparr>" _ mshOnly
          "CHR ''^''" "CHR ''&''"] p n
    by simp
  have b: "messageMatchesSingleFilter mshOnly
      \<lparr>fieldRef = ''PID.5'', operator = ''!exists'', valueText = []\<rparr> (CHR ''^'') (CHR ''&'') = True"
    using missing_segment_defaults
      [of "\<lparr>fieldRef = ''PID.5'', operator = ''!exists'', valueText = []\<rparr>" _ mshOnly
          "CHR ''^''" "CHR ''&''"] p n
    by simp
  show ?thesis using p a b by simp
qed

section \<open>Properties of the boolean combinator\<close>

lemma map_of_objSet: "map_of (objSet kvs k v) = (map_of kvs)(k \<mapsto> v)"
  by (induction kvs k v rule: objSet.induct) (auto simp: fun_eq_iff)

lemma objSet_fresh: "k \<notin> fst ` set kvs \<Longrightarrow> objSet kvs k v = kvs @ [(k, v)]"
  by (induction kvs k v rule: objSet.induct) auto

lemma snd_set_objSet: "snd ` set (objSet kvs k v) \<subseteq> insert v (snd ` set kvs)"
  by (induction kvs k v rule: objSet.induct) auto

lemma set_objEntries [simp]: "set (objEntries kvs) = set kvs"
  by (auto simp: objEntries_def)

lemma set_objValues: "set (objValues kvs) = snd ` set kvs"
  by (simp add: objValues_def)

lemma foldl_objSet_distinct:
  "distinct (map fst acc @ map key xs) \<Longrightarrow>
   foldl (\<lambda>res x. objSet res (key x) (val x)) acc xs = acc @ map (\<lambda>x. (key x, val x)) xs"
proof (induction xs arbitrary: acc)
  case Nil
  then show ?case by simp
next
  case (Cons x xs)
  have fresh: "key x \<notin> fst ` set acc" using Cons.prems by auto
  have "distinct (map fst (acc @ [(key x, val x)]) @ map key xs)"
    using Cons.prems by auto
  from Cons.IH [OF this] show ?case by (simp add: objSet_fresh [OF fresh])
qed

lemma buildFilterResults_distinct:
  "distinct (map label fs) \<Longrightarrow>
   buildFilterResults segs fs cs ss = map (\<lambda>f. (label f, filterResult segs f cs ss)) fs"
  unfolding buildFilterResults_def
  using foldl_objSet_distinct [of "[]" label fs "\<lambda>f. filterResult segs f cs ss"] by simp

lemma foldl_objSet_values:
  "snd ` set (foldl (\<lambda>res x. objSet res (key x) (val x)) acc xs) \<subseteq> snd ` set acc \<union> val ` set xs"
proof (induction xs arbitrary: acc)
  case Nil
  then show ?case by simp
next
  case (Cons x xs)
  show ?case using Cons.IH [of "objSet acc (key x) (val x)"] snd_set_objSet [of acc "key x" "val x"]
    by auto
qed

lemma foldl_objSet_keys:
  "x \<in> set xs \<Longrightarrow> map_of (foldl (\<lambda>res x. objSet res (key x) (val x)) acc xs) (key x) \<noteq> None"
proof (induction xs arbitrary: acc rule: rev_induct)
  case Nil
  then show ?case by simp
next
  case (snoc y ys)
  then show ?case by (auto simp: map_of_objSet)
qed

text \<open>
  Claim C4. For a filter set of at least two conditions (so in particular two to
  five) with pairwise different labels, as the filter rows \<open>F1\<close>, \<open>F2\<close>, ...
  are, the mode \<open>AND\<close> gives the conjunction and the mode \<open>OR\<close> the disjunction of
  the results of the single conditions. Both are stated over the set of conditions,
  so the order of the conditions does not matter.
\<close>

theorem and_or_combination:
  assumes "distinct (map label fs)" and "2 \<le> length fs"
  shows "messageMatchesFilters jsf segs
           (Some \<lparr>filters = fs, logic = ''AND'', logicExpression = ex\<rparr>) cs ss
         = (\<forall>f \<in> set fs. filterResult segs f cs ss)
       \<and> messageMatchesFilters jsf segs
           (Some \<lparr>filters = fs, logic = ''OR'', logicExpression = ex\<rparr>) cs ss
         = (\<exists>f \<in> set fs. filterResult segs f cs ss)"
proof -
  have ne: "fs \<noteq> []" and n1: "length fs \<noteq> 1" using assms(2) by auto
  have vals: "set (objValues (buildFilterResults segs fs cs ss))
                = (\<lambda>f. filterResult segs f cs ss) ` set fs"
    by (simp add: set_objValues buildFilterResults_distinct [OF assms(1)] image_image)
  show ?thesis
    using ne n1 vals
    by (auto simp: messageMatchesFilters_def Let_def list_all_iff list_ex_iff)
qed


theorem and_or_combination_witness:
  "messageMatchesFilters facilityNo mshOnly
     (Some \<lparr>filters = twoFilters, logic = ''AND'', logicExpression = None\<rparr>) (CHR ''^'') (CHR ''&'')
     = False
   \<and> messageMatchesFilters facilityNo mshOnly
     (Some \<lparr>filters = twoFilters, logic = ''OR'', logicExpression = None\<rparr>) (CHR ''^'') (CHR ''&'')
     = True"
proof -
  have d: "distinct (map label twoFilters)" by (simp add: twoFilters_def)
  have l: "2 \<le> length twoFilters" by (simp add: twoFilters_def)
  have r1: "filterResult mshOnly (twoFilters ! 0) (CHR ''^'') (CHR ''&'') = True" by code_simp
  have r2: "filterResult mshOnly (twoFilters ! 1) (CHR ''^'') (CHR ''&'') = False" by code_simp
  have s: "set twoFilters = {twoFilters ! 0, twoFilters ! 1}" by (simp add: twoFilters_def)
  show ?thesis
    using and_or_combination [OF d l, of facilityNo mshOnly None "CHR ''^''" "CHR ''&''"] r1 r2
    by (simp add: s)
qed

text \<open>
  Claim C10. While messages are filtered, a condition whose expression does not parse
  counts as true: alone it lets every message through, and so does a set of such
  conditions in every mode but \<open>custom\<close>. A custom expression whose text after
  substitution is empty or has a character outside the allowed ones gives true, and
  so does one on which the code-execution facility throws.
\<close>

theorem broken_filter_input_includes:
  "(parseFilterExpression (expression f) = None \<longrightarrow>
      filterResult segs f cs ss
      \<and> messageMatchesFilters jsf segs
          (Some \<lparr>filters = [f], logic = lg, logicExpression = ex\<rparr>) cs ss)
   \<and> ((\<forall>g \<in> set fs. parseFilterExpression (expression g) = None) \<and> lg \<noteq> ''custom'' \<longrightarrow>
      messageMatchesFilters jsf segs
        (Some \<lparr>filters = fs, logic = lg, logicExpression = ex\<rparr>) cs ss)
   \<and> (\<not> (substituteLogic e r \<noteq> [] \<and> list_all allowedChar (substituteLogic e r)) \<longrightarrow>
      evaluateCustomLogic jsf e r)
   \<and> (jsf (functionBody (substituteLogic e r)) = None \<longrightarrow> evaluateCustomLogic jsf e r)"
proof -
  have single: "parseFilterExpression (expression f) = None \<Longrightarrow>
      filterResult segs f cs ss
      \<and> messageMatchesFilters jsf segs
          (Some \<lparr>filters = [f], logic = lg, logicExpression = ex\<rparr>) cs ss"
    by (simp add: messageMatchesFilters_def buildFilterResults_def filterResult_def
        objTruthy_def)
  have many: "messageMatchesFilters jsf segs
        (Some \<lparr>filters = fs, logic = lg, logicExpression = ex\<rparr>) cs ss"
    if bad: "\<forall>g \<in> set fs. parseFilterExpression (expression g) = None" and lg: "lg \<noteq> ''custom''"
  proof (cases "fs = []")
    case True
    then show ?thesis by (simp add: messageMatchesFilters_def)
  next
    case False
    let ?res = "buildFilterResults segs fs cs ss"
    have allTrue: "\<forall>g \<in> set fs. filterResult segs g cs ss"
      using bad by (simp add: filterResult_def)
    have vals: "snd ` set ?res \<subseteq> {True}"
      using foldl_objSet_values [of label "\<lambda>g. filterResult segs g cs ss" "[]" fs] allTrue
      unfolding buildFilterResults_def by auto
    have "fs ! 0 \<in> set fs" using False by (simp add: nth_mem)
    then have "map_of ?res (label (fs ! 0)) \<noteq> None"
      unfolding buildFilterResults_def by (rule foldl_objSet_keys)
    then obtain v where v: "map_of ?res (label (fs ! 0)) = Some v" by auto
    then have "(label (fs ! 0), v) \<in> set ?res" by (rule map_of_SomeD)
    then have "v \<in> snd ` set ?res" by force
    then have "v = True" using vals by auto
    then have first: "objTruthy ?res (label (fs ! 0))" using v by (simp add: objTruthy_def)
    have nonempty: "set ?res \<noteq> {}" using \<open>(label (fs ! 0), v) \<in> set ?res\<close> by auto
    have all: "list_all (\<lambda>r. r = True) (objValues ?res)"
      using vals by (auto simp: list_all_iff set_objValues)
    have "True \<in> snd ` set ?res" using \<open>v \<in> snd ` set ?res\<close> \<open>v = True\<close> by simp
    then have ex1: "list_ex (\<lambda>r. r = True) (objValues ?res)"
      unfolding list_ex_iff set_objValues by blast
    show ?thesis
      using False lg first all ex1 by (simp add: messageMatchesFilters_def Let_def)
  qed
  have guard: "\<not> (substituteLogic e r \<noteq> [] \<and> list_all allowedChar (substituteLogic e r)) \<Longrightarrow>
      evaluateCustomLogic jsf e r"
    by (simp add: evaluateCustomLogic_def Let_def)
  have throws: "jsf (functionBody (substituteLogic e r)) = None \<Longrightarrow> evaluateCustomLogic jsf e r"
    by (simp add: evaluateCustomLogic_def Let_def)
  show ?thesis using single many guard throws by blast
qed

theorem broken_filter_input_includes_witness:
  "parseFilterExpression ''garbage'' = None
   \<and> messageMatchesFilters facilityNo mshOnly
       (Some \<lparr>filters = [\<lparr>label = ''F1'', expression = ''garbage''\<rparr>], logic = ''single'',
               logicExpression = None\<rparr>) (CHR ''^'') (CHR ''&'')
   \<and> messageMatchesFilters facilityNo mshOnly
       (Some \<lparr>filters = [\<lparr>label = ''F1'', expression = ''garbage''\<rparr>,
                          \<lparr>label = ''F2'', expression = ''PID.x = 1''\<rparr>], logic = ''OR'',
               logicExpression = None\<rparr>) (CHR ''^'') (CHR ''&'')
   \<and> substituteLogic ''F1 + F2'' [(''F1'', True), (''F2'', False)] = ''true + false''
   \<and> evaluateCustomLogic facilityNo ''F1 + F2'' [(''F1'', True), (''F2'', False)]
   \<and> evaluateCustomLogic facilityThrows ''F1 AND'' [(''F1'', False)]"
proof -
  have p1: "parseFilterExpression ''garbage'' = None" by code_simp
  have p2: "parseFilterExpression ''PID.x = 1'' = None" by code_simp
  have s1: "substituteLogic ''F1 + F2'' [(''F1'', True), (''F2'', False)] = ''true + false''"
    by code_simp
  have g1: "\<not> (''true + false'' \<noteq> [] \<and> list_all allowedChar ''true + false'')"
    by (simp add: allowedChar_def)
  have t1: "facilityThrows (functionBody (substituteLogic ''F1 AND'' [(''F1'', False)])) = None"
    by (simp add: facilityThrows_def)
  have a: "messageMatchesFilters facilityNo mshOnly
       (Some \<lparr>filters = [\<lparr>label = ''F1'', expression = ''garbage''\<rparr>], logic = ''single'',
               logicExpression = None\<rparr>) (CHR ''^'') (CHR ''&'')"
    using broken_filter_input_includes
      [where f = "\<lparr>label = ''F1'', expression = ''garbage''\<rparr>" and segs = mshOnly
         and cs = "CHR ''^''" and ss = "CHR ''&''" and jsf = facilityNo and lg = "''single''"
         and ex = None] p1
    by simp
  have b: "messageMatchesFilters facilityNo mshOnly
       (Some \<lparr>filters = [\<lparr>label = ''F1'', expression = ''garbage''\<rparr>,
                          \<lparr>label = ''F2'', expression = ''PID.x = 1''\<rparr>], logic = ''OR'',
               logicExpression = None\<rparr>) (CHR ''^'') (CHR ''&'')"
    using broken_filter_input_includes
      [where fs = "[\<lparr>label = ''F1'', expression = ''garbage''\<rparr>,
                    \<lparr>label = ''F2'', expression = ''PID.x = 1''\<rparr>]" and segs = mshOnly
         and cs = "CHR ''^''" and ss = "CHR ''&''" and jsf = facilityNo and lg = "''OR''"
         and ex = None] p1 p2
    by simp
  have c: "evaluateCustomLogic facilityNo ''F1 + F2'' [(''F1'', True), (''F2'', False)]"
    using broken_filter_input_includes
      [where e = "''F1 + F2''" and r = "[(''F1'', True), (''F2'', False)]" and jsf = facilityNo]
      s1 g1
    by simp
  have d: "evaluateCustomLogic facilityThrows ''F1 AND'' [(''F1'', False)]"
    using broken_filter_input_includes
      [where e = "''F1 AND''" and r = "[(''F1'', False)]" and jsf = facilityThrows] t1
    by simp
  show ?thesis using p1 a b s1 c d by simp
qed

text \<open>
  Claim C1. The claim says that custom logic is never evaluated by a generic
  code-execution facility applied to a text built from the expression. In the source
  the result is whatever \<open>Function\<close> answers for that text: for the expression
  \<open>F1\<close> with \<open>F1\<close> true the text is \<open>true\<close>, and the result is false with a
  facility that answers false and true with one that answers true.
\<close>

theorem evaluation_depends_on_facility:
  "substituteLogic ''F1'' [(''F1'', True)] = ''true''
   \<and> evaluateCustomLogic facilityNo ''F1'' [(''F1'', True)] = False
   \<and> evaluateCustomLogic facilityYes ''F1'' [(''F1'', True)] = True"
  by code_simp

text \<open>
  Claim C1, amended. \<open>evaluateCustomLogic\<close> hands the text to the facility only
  when it is not empty and made of the characters of \<open>true\<close>, \<open>false\<close>,
  \<open>&\<close>, \<open>|\<close>, \<open>!\<close>, parentheses and spaces: two facilities that agree on every
  such text give the same result for every expression and every assignment.
\<close>

theorem evaluation_confined_to_allowed_text:
  assumes "\<forall>s. s \<noteq> [] \<and> list_all allowedChar s \<longrightarrow> jsf1 (functionBody s) = jsf2 (functionBody s)"
  shows "evaluateCustomLogic jsf1 e r = evaluateCustomLogic jsf2 e r"
  using assms by (simp add: evaluateCustomLogic_def Let_def)

theorem evaluation_confined_to_allowed_text_witness:
  "evaluateCustomLogic facilityProbe ''F1 AND NOT F2'' [(''F1'', True), (''F2'', False)]
     = evaluateCustomLogic facilityNo ''F1 AND NOT F2'' [(''F1'', True), (''F2'', False)]"
proof -
  have notx: "\<not> allowedChar (CHR ''x'')" by (simp add: allowedChar_def)
  have clean: "CHR ''x'' \<notin> set s" if "list_all allowedChar s" for s
  proof
    assume "CHR ''x'' \<in> set s"
    with that have "allowedChar (CHR ''x'')" by (simp add: list_all_iff)
    with notx show False by simp
  qed
  have "facilityProbe (functionBody s) = facilityNo (functionBody s)"
    if "list_all allowedChar s" for s
    using clean [OF that] by (simp add: facilityProbe_def facilityNo_def functionBody_def)
  then have "\<forall>s. s \<noteq> [] \<and> list_all allowedChar s \<longrightarrow>
          facilityProbe (functionBody s) = facilityNo (functionBody s)"
    by blast
  then show ?thesis by (rule evaluation_confined_to_allowed_text)
qed


section \<open>Properties of the aggregation engine\<close>

lemma extractFieldValues_filtered:
  assumes "extractFieldValues jsf ids content fref (Some cfg) = Inr r" and "filters cfg \<noteq> []"
  shows "filteredHL7Content r
         = exportText (filter (\<lambda>msg. messageMatchesFilters jsf (segments msg) (Some cfg)
                          (msgComponentSeparator msg) (msgSubcomponentSeparator msg))
                        (parseMessagesForFiltering ids content))"
  using assms
  by (auto simp: extractFieldValues_def selectMessages_def Let_def split: if_splits validation.splits)

text \<open>
  Claim C7. When a filter set is applied, the export text is the text of the messages
  that pass it: the messages are joined by \<open>\r\r\n\<close>, the segments of a message by
  \<open>\r\<close>, and a segment is its kind label, its field separator and its fields joined
  by that separator.
\<close>

theorem export_format:
  "(extractFieldValues jsf ids content fref (Some cfg) = Inr r \<and> filters cfg \<noteq> [] \<longrightarrow>
      filteredHL7Content r
        = exportText (filter (\<lambda>msg. messageMatchesFilters jsf (segments msg) (Some cfg)
                          (msgComponentSeparator msg) (msgSubcomponentSeparator msg))
                        (parseMessagesForFiltering ids content)))
   \<and> exportText [] = []
   \<and> exportText [m] = messageText m
   \<and> exportText (m # m' # ms) = messageText m @ [CR, CR, LF] @ exportText (m' # ms)
   \<and> messageText (m\<lparr>segments := []\<rparr>) = []
   \<and> messageText (m\<lparr>segments := [sg]\<rparr>) = segmentText sg
   \<and> messageText (m\<lparr>segments := sg # sg' # sgs\<rparr>)
       = segmentText sg @ [CR] @ messageText (m\<lparr>segments := sg' # sgs\<rparr>)
   \<and> segmentText sg = segmentId sg @ [fieldSeparator sg] @ join [fieldSeparator sg] (fieldList sg)"
  using extractFieldValues_filtered [of jsf ids content fref cfg r]
  by (simp add: exportText_def messageText_def segmentText_def)

theorem export_format_witness:
  "extractFieldValues facilityNo sampleIds twoMessages [] (Some doeFilter) = Inr doeResult
   \<and> exportText (filter (\<lambda>msg. messageMatchesFilters facilityNo (segments msg) (Some doeFilter)
                          (msgComponentSeparator msg) (msgSubcomponentSeparator msg))
                  (parseMessagesForFiltering sampleIds twoMessages))
       = ''MSH|^~'' @ [CHR 0x5C] @ ''&|A'' @ [CR] @ ''PID|||ID1^^^SYS||DOE^JOHN''"
proof -
  have e: "extractFieldValues facilityNo sampleIds twoMessages [] (Some doeFilter) = Inr doeResult"
    by code_simp
  have f: "filters doeFilter \<noteq> []" by (simp add: doeFilter_def)
  have "filteredHL7Content doeResult
      = exportText (filter (\<lambda>msg. messageMatchesFilters facilityNo (segments msg) (Some doeFilter)
                          (msgComponentSeparator msg) (msgSubcomponentSeparator msg))
                  (parseMessagesForFiltering sampleIds twoMessages))"
    using export_format [of facilityNo sampleIds twoMessages "[]" doeFilter doeResult] e f by simp
  then show ?thesis using e by (simp add: doeResult_def)
qed




section \<open>Undeclared labels in custom logic\<close>




































section \<open>Extraction and statistics\<close>

lemma extractionsOf_index: "x \<in> set (extractionsOf p i m) \<Longrightarrow> messageIndex x = i"
  by (auto simp: extractionsOf_def Let_def split: if_splits)

lemma extractionsOf_nonempty: "extractionsOf p i m \<noteq> []"
  by (auto simp: extractionsOf_def Let_def)

lemma extractionsOf_length:
  "length (extractionsOf p i m)
     = max 1 (length (filter (\<lambda>sg. segmentId sg = segment p) (segments m)))"
  by (cases "filter (\<lambda>sg. segmentId sg = segment p) (segments m)")
     (simp_all add: extractionsOf_def Let_def)

lemma extractionsOf_none:
  "filter (\<lambda>sg. segmentId sg = segment p) (segments m) = [] \<Longrightarrow>
   extractionsOf p i m = [\<lparr>messageIndex = i, extracted = []\<rparr>]"
  by (simp add: extractionsOf_def)

lemma filter_extractionsOf:
  "filter (\<lambda>x. messageIndex x = i) (extractionsOf p j m) = (if i = j then extractionsOf p j m else [])"
  by (auto simp: filter_empty_conv dest: extractionsOf_index intro: filter_True)

lemma filter_extractions_enumerate:
  "filter (\<lambda>x. messageIndex x = i)
     (concat (map (\<lambda>(idx, msg). extractionsOf p idx msg) (enumerate n msgs)))
   = (if n \<le> i \<and> i < n + length msgs then extractionsOf p i (msgs ! (i - n)) else [])"
proof (induction msgs arbitrary: n)
  case Nil
  then show ?case by auto
next
  case (Cons m msgs)
  show ?case
  proof (cases "i = n")
    case True
    have "filter (\<lambda>x. messageIndex x = i)
            (concat (map (\<lambda>(idx, msg). extractionsOf p idx msg) (enumerate (Suc n) msgs))) = []"
      using Cons.IH [of "Suc n"] True by simp
    then show ?thesis using True by (simp add: filter_extractionsOf)
  next
    case False
    have "filter (\<lambda>x. messageIndex x = i)
            (concat (map (\<lambda>(idx, msg). extractionsOf p idx msg) (enumerate (Suc n) msgs)))
          = (if Suc n \<le> i \<and> i < Suc n + length msgs
             then extractionsOf p i (msgs ! (i - Suc n)) else [])"
      by (rule Cons.IH)
    then show ?thesis using False by (auto simp: filter_extractionsOf nth_Cons' Suc_diff_le)
  qed
qed

lemma filter_extractAll:
  "i < length msgs \<Longrightarrow>
   filter (\<lambda>x. messageIndex x = i) (extractAll p msgs) = extractionsOf p i (msgs ! i)"
  by (simp add: extractAll_def filter_extractions_enumerate)

lemma extractAll_index_bound:
  assumes "x \<in> set (extractAll p msgs)"
  shows "messageIndex x < length msgs"
proof (rule ccontr)
  assume "\<not> messageIndex x < length msgs"
  then have "filter (\<lambda>y. messageIndex y = messageIndex x) (extractAll p msgs) = []"
    by (simp add: extractAll_def filter_extractions_enumerate)
  then show False using assms by (auto simp: filter_empty_conv)
qed

lemma extractAll_index_present:
  "i < length msgs \<Longrightarrow> \<exists>x \<in> set (extractAll p msgs). messageIndex x = i"
proof -
  assume a: "i < length msgs"
  obtain x where "x \<in> set (extractionsOf p i (msgs ! i))"
    using extractionsOf_nonempty [of p i "msgs ! i"] by (cases "extractionsOf p i (msgs ! i)") auto
  then have "x \<in> set (filter (\<lambda>x. messageIndex x = i) (extractAll p msgs))"
    by (simp only: filter_extractAll [OF a])
  then show ?thesis by auto
qed

text \<open>The counting loop.\<close>

lemma setAdd_set [simp]: "set (setAdd xs x) = insert x (set xs)"
  by (auto simp: setAdd_def)

lemma setAdd_distinct [simp]: "distinct xs \<Longrightarrow> distinct (setAdd xs x)"
  by (simp add: setAdd_def)

lemma countStep_hasValue:
  "set (messageHasValue (countStep st x))
     = set (messageHasValue st) \<union> (if trim (extracted x) \<noteq> [] then {messageIndex x} else {})"
  by (simp add: countStep_def Let_def)

lemma countStep_hasNoValue:
  "set (messageHasNoValue (countStep st x))
     = set (messageHasNoValue st) \<union> (if trim (extracted x) = [] then {messageIndex x} else {})"
  by (simp add: countStep_def Let_def)

lemma countStep_distinct:
  "distinct (messageHasValue st) \<Longrightarrow> distinct (messageHasNoValue st) \<Longrightarrow>
   distinct (messageHasValue (countStep st x)) \<and> distinct (messageHasNoValue (countStep st x))"
  by (simp add: countStep_def Let_def)

lemma foldl_countStep:
  "distinct (messageHasValue st) \<Longrightarrow> distinct (messageHasNoValue st) \<Longrightarrow>
   set (messageHasValue (foldl countStep st rs))
     = set (messageHasValue st) \<union> messageIndex ` {x \<in> set rs. trim (extracted x) \<noteq> []}
   \<and> set (messageHasNoValue (foldl countStep st rs))
     = set (messageHasNoValue st) \<union> messageIndex ` {x \<in> set rs. trim (extracted x) = []}
   \<and> distinct (messageHasValue (foldl countStep st rs))
   \<and> distinct (messageHasNoValue (foldl countStep st rs))"
proof (induction rs arbitrary: st)
  case Nil
  then show ?case by simp
next
  case (Cons x rs)
  have d: "distinct (messageHasValue (countStep st x))" "distinct (messageHasNoValue (countStep st x))"
    using countStep_distinct [OF Cons.prems] by auto
  show ?case
    using Cons.IH [OF d]
    by (auto simp: countStep_hasValue countStep_hasNoValue)
qed

lemma countAll_sets:
  "set (messageHasValue (countAll rs)) = messageIndex ` {x \<in> set rs. trim (extracted x) \<noteq> []}"
  "set (messageHasNoValue (countAll rs)) = messageIndex ` {x \<in> set rs. trim (extracted x) = []}"
  "distinct (messageHasValue (countAll rs))"
  "distinct (messageHasNoValue (countAll rs))"
  using foldl_countStep [of "\<lparr>valueCounts = [], messageHasValue = [], messageHasNoValue = []\<rparr>" rs]
  by (simp_all add: countAll_def)


lemma parseFieldReference_blank: "trim fref = [] \<Longrightarrow> parseFieldReference fref = None"
  by (simp add: parseFieldReference_def toUpperCase_def splitOn_def)

lemma extractFieldValues_results:
  assumes "extractFieldValues jsf ids content fref config = Inr r"
    and "parseFieldReference fref = Some p"
  shows "results r = extractAll p (selectMessages jsf config (parseMessagesForFiltering ids content))"
    and "\<not> filterOnly r"
    and "(if filterApplied r then filteredMessages r else totalMessages r)
           = length (selectMessages jsf config (parseMessagesForFiltering ids content))"
proof -
  have nb: "fref \<noteq> []" "trim fref \<noteq> []"
    using assms(2) parseFieldReference_blank [of fref] by (auto simp: parseFieldReference_def)
  show "results r = extractAll p (selectMessages jsf config (parseMessagesForFiltering ids content))"
    using assms nb
    by (auto simp: extractFieldValues_def Let_def split: if_splits validation.splits)
  show "\<not> filterOnly r"
    using assms nb
    by (auto simp: extractFieldValues_def Let_def split: if_splits validation.splits)
  show "(if filterApplied r then filteredMessages r else totalMessages r)
           = length (selectMessages jsf config (parseMessagesForFiltering ids content))"
    using assms nb
    by (auto simp: extractFieldValues_def selectMessages_def Let_def
        split: if_splits validation.splits option.splits)
qed

lemma generateStatistics_counts:
  assumes res: "results r = extractAll p msgs" and fo: "\<not> filterOnly r"
    and cnt: "(if filterApplied r then filteredMessages r else totalMessages r) = length msgs"
  shows "\<exists>st. generateStatistics (Inr r) = FieldStats st
           \<and> totalOccurrences st = length (results r)
           \<and> messagesWithValue st
               = int (card {i. i < length msgs
                      \<and> (\<exists>x \<in> set (results r). messageIndex x = i \<and> trim (extracted x) \<noteq> [])})
           \<and> messagesWithoutValue st
               = int (card {i. i < length msgs
                      \<and> (\<forall>x \<in> set (results r). messageIndex x = i \<longrightarrow> trim (extracted x) = [])})"
proof -
  let ?rs = "results r"
  let ?cs = "countAll ?rs"
  let ?V = "messageIndex ` {x \<in> set ?rs. trim (extracted x) \<noteq> []}"
  let ?N = "messageIndex ` {x \<in> set ?rs. trim (extracted x) = []}"
  have bound: "\<And>x. x \<in> set ?rs \<Longrightarrow> messageIndex x < length msgs"
    unfolding res by (rule extractAll_index_bound)
  have present: "\<And>i. i < length msgs \<Longrightarrow> \<exists>x \<in> set ?rs. messageIndex x = i"
    unfolding res by (rule extractAll_index_present)
  have V: "?V = {i. i < length msgs
                 \<and> (\<exists>x \<in> set ?rs. messageIndex x = i \<and> trim (extracted x) \<noteq> [])}"
    using bound by auto
  have NV: "?N - ?V = {i. i < length msgs
                 \<and> (\<forall>x \<in> set ?rs. messageIndex x = i \<longrightarrow> trim (extracted x) = [])}"
  proof (intro set_eqI iffI)
    fix i
    assume i: "i \<in> ?N - ?V"
    then obtain xa where xa: "xa \<in> set ?rs" "i = messageIndex xa" by auto
    have "trim (extracted x) = []" if "x \<in> set ?rs" and "messageIndex x = i" for x
    proof (rule ccontr)
      assume "trim (extracted x) \<noteq> []"
      with that have "i \<in> ?V" by force
      with i show False by simp
    qed
    then show "i \<in> {i. i < length msgs
                 \<and> (\<forall>x \<in> set ?rs. messageIndex x = i \<longrightarrow> trim (extracted x) = [])}"
      using bound [OF xa(1)] xa(2) by simp
  next
    fix i
    assume "i \<in> {i. i < length msgs
                 \<and> (\<forall>x \<in> set ?rs. messageIndex x = i \<longrightarrow> trim (extracted x) = [])}"
    then have lt: "i < length msgs"
      and emp: "\<forall>x \<in> set ?rs. messageIndex x = i \<longrightarrow> trim (extracted x) = []" by auto
    from present [OF lt] obtain x where x: "x \<in> set ?rs" "messageIndex x = i" by auto
    with emp have "trim (extracted x) = []" by simp
    with x have inN: "i \<in> ?N" by force
    have "i \<notin> ?V" using emp by auto
    with inN show "i \<in> ?N - ?V" by simp
  qed
  have "?V \<union> ?N = messageIndex ` set ?rs" by auto
  also have "\<dots> = {..<length msgs}"
  proof (intro set_eqI iffI)
    fix i
    assume "i \<in> messageIndex ` set ?rs"
    then show "i \<in> {..<length msgs}" using bound by auto
  next
    fix i
    assume "i \<in> {..<length msgs}"
    then have "i < length msgs" by simp
    from present [OF this] show "i \<in> messageIndex ` set ?rs" by auto
  qed
  finally have U: "?V \<union> ?N = {..<length msgs}" .
  have withValue: "length (messageHasValue ?cs) = card ?V"
    using countAll_sets(1,3) [of ?rs] distinct_card [of "messageHasValue ?cs"] by simp
  have "set (filter (\<lambda>m. m \<notin> set (messageHasValue ?cs)) (messageHasNoValue ?cs)) = ?N - ?V"
    using countAll_sets(1,2) [of ?rs] by auto
  moreover have "distinct (filter (\<lambda>m. m \<notin> set (messageHasValue ?cs)) (messageHasNoValue ?cs))"
    using countAll_sets(4) [of ?rs] by simp
  ultimately have onlyEmpty:
    "length (filter (\<lambda>m. m \<notin> set (messageHasValue ?cs)) (messageHasNoValue ?cs)) = card (?N - ?V)"
    using distinct_card by fastforce
  have "set (remdups (messageHasValue ?cs @ messageHasNoValue ?cs)) = ?V \<union> ?N"
    using countAll_sets(1,2) [of ?rs] by simp
  then have "length (remdups (messageHasValue ?cs @ messageHasNoValue ?cs)) = card (?V \<union> ?N)"
    using distinct_card [of "remdups (messageHasValue ?cs @ messageHasNoValue ?cs)"] by simp
  then have withSegment:
    "length (remdups (messageHasValue ?cs @ messageHasNoValue ?cs)) = length msgs"
    using U by simp
  show ?thesis
    using fo cnt withValue onlyEmpty withSegment V NV
    by (simp add: generateStatistics_def Let_def)
qed


text \<open>
  Claim C8. With an address, every segment of the addressed kind in a kept message
  gives exactly one extraction, in order, and a message without such a segment gives
  exactly one empty extraction and is counted among the messages without value. The
  statistics count as without value the messages all of whose extractions are empty
  after trimming, and as with value the others. For \<open>PID.99\<close> on the two messages
  of the example there are two empty extractions, no message with value, two
  without, and the empty bucket has count 2.
\<close>

theorem extraction_per_matching_segment:
  assumes ex: "extractFieldValues jsf ids content fref config = Inr r"
    and p: "parseFieldReference fref = Some p"
    and msgs: "msgs = selectMessages jsf config (parseMessagesForFiltering ids content)"
    and i: "i < length msgs"
    and matching: "matching = filter (\<lambda>sg. segmentId sg = segment p) (segments (msgs ! i))"
  shows "length (filter (\<lambda>x. messageIndex x = i) (results r)) = max 1 (length matching)
     \<and> (matching \<noteq> [] \<longrightarrow>
          map extracted (filter (\<lambda>x. messageIndex x = i) (results r))
            = map (\<lambda>sg. extractValueFromSegment sg (field p) (component p) (subcomponent p)
                          (msgComponentSeparator (msgs ! i)) (msgSubcomponentSeparator (msgs ! i)))
                  matching)
     \<and> (matching = [] \<longrightarrow>
          filter (\<lambda>x. messageIndex x = i) (results r) = [\<lparr>messageIndex = i, extracted = []\<rparr>]
          \<and> i \<in> {j. j < length msgs
                   \<and> (\<forall>x \<in> set (results r). messageIndex x = j \<longrightarrow> trim (extracted x) = [])})
     \<and> (\<exists>st. generateStatistics (Inr r) = FieldStats st
           \<and> totalOccurrences st = length (results r)
           \<and> messagesWithValue st
               = int (card {j. j < length msgs
                      \<and> (\<exists>x \<in> set (results r). messageIndex x = j \<and> trim (extracted x) \<noteq> [])})
           \<and> messagesWithoutValue st
               = int (card {j. j < length msgs
                      \<and> (\<forall>x \<in> set (results r). messageIndex x = j \<longrightarrow> trim (extracted x) = [])}))
     \<and> generateStatistics (extractFieldValues facilityNo sampleIds twoMessages ''PID.99'' None)
         = FieldStats \<lparr>statTotalMessages = 2, statFilteredMessages = None,
             statFilterApplied = False, statFilterExpression = [],
             messagesWithValue = 0, messagesWithoutValue = 2, totalOccurrences = 2,
             distinctValues = [(''(empty)'', 2)],
             segmentNotFound = False, statFilteredHL7Content = []\<rparr>"
proof -
  have res: "results r = extractAll p msgs" and fo: "\<not> filterOnly r"
    and cnt: "(if filterApplied r then filteredMessages r else totalMessages r) = length msgs"
    using extractFieldValues_results [OF ex p] msgs by simp_all
  have own: "filter (\<lambda>x. messageIndex x = i) (results r) = extractionsOf p i (msgs ! i)"
    unfolding res by (rule filter_extractAll [OF i])
  have len: "length (filter (\<lambda>x. messageIndex x = i) (results r)) = max 1 (length matching)"
    unfolding own matching by (rule extractionsOf_length)
  have some: "map extracted (filter (\<lambda>x. messageIndex x = i) (results r))
            = map (\<lambda>sg. extractValueFromSegment sg (field p) (component p) (subcomponent p)
                          (msgComponentSeparator (msgs ! i)) (msgSubcomponentSeparator (msgs ! i)))
                  matching" if "matching \<noteq> []"
    using that unfolding own matching by (simp add: extractionsOf_def Let_def comp_def)
  have none: "filter (\<lambda>x. messageIndex x = i) (results r) = [\<lparr>messageIndex = i, extracted = []\<rparr>]"
    if "matching = []"
    using that unfolding own matching by (simp add: extractionsOf_none)
  have member: "i \<in> {j. j < length msgs
                   \<and> (\<forall>x \<in> set (results r). messageIndex x = j \<longrightarrow> trim (extracted x) = [])}"
    if m: "matching = []"
  proof -
    have "trim (extracted x) = []" if "x \<in> set (results r)" and "messageIndex x = i" for x
    proof -
      from that have "x \<in> set (filter (\<lambda>x. messageIndex x = i) (results r))" by simp
      then have "x = \<lparr>messageIndex = i, extracted = []\<rparr>" unfolding none [OF m] by simp
      then show ?thesis by (simp add: trim_def)
    qed
    then show ?thesis using i by simp
  qed
  have example: "generateStatistics (extractFieldValues facilityNo sampleIds twoMessages ''PID.99'' None)
         = FieldStats \<lparr>statTotalMessages = 2, statFilteredMessages = None,
             statFilterApplied = False, statFilterExpression = [],
             messagesWithValue = 0, messagesWithoutValue = 2, totalOccurrences = 2,
             distinctValues = [(''(empty)'', 2)],
             segmentNotFound = False, statFilteredHL7Content = []\<rparr>"
    by code_simp
  show ?thesis
    using len some none member generateStatistics_counts [OF res fo cnt] example
    by blast
qed

theorem extraction_per_matching_segment_witness:
  "extractFieldValues facilityNo sampleIds mixedMessages ''PID.5.1'' None = Inr mixedResult
   \<and> filter (\<lambda>x. messageIndex x = 0) (results mixedResult) = [\<lparr>messageIndex = 0, extracted = []\<rparr>]
   \<and> length (filter (\<lambda>x. messageIndex x = 1) (results mixedResult)) = 1"
proof -
  let ?p = "\<lparr>segment = ''PID'', field = 5, component = Some 1, subcomponent = None\<rparr>"
  let ?msgs = "selectMessages facilityNo None (parseMessagesForFiltering sampleIds mixedMessages)"
  have e: "extractFieldValues facilityNo sampleIds mixedMessages ''PID.5.1'' None = Inr mixedResult"
    by code_simp
  have p: "parseFieldReference ''PID.5.1'' = Some ?p" by code_simp
  have l0: "0 < length ?msgs" by code_simp
  have l1: "1 < length ?msgs" by code_simp
  have m0: "filter (\<lambda>sg. segmentId sg = segment ?p) (segments (?msgs ! 0)) = []" by code_simp
  have m1: "length (filter (\<lambda>sg. segmentId sg = segment ?p) (segments (?msgs ! 1))) = 1"
    by code_simp
  have a: "filter (\<lambda>x. messageIndex x = 0) (results mixedResult)
             = [\<lparr>messageIndex = 0, extracted = []\<rparr>]"
    using extraction_per_matching_segment [OF e p refl l0 refl] m0 by simp
  have b: "length (filter (\<lambda>x. messageIndex x = 1) (results mixedResult)) = 1"
    using extraction_per_matching_segment [OF e p refl l1 refl] m1 by simp
  show ?thesis using e a b by simp
qed


section \<open>Round trip of segmenting and exporting\<close>

lemma splitAcc_nonempty: "splitAcc c cur s \<noteq> []"
  by (induction s arbitrary: cur) auto

lemma join_Cons_nonempty: "ys \<noteq> [] \<Longrightarrow> join sep (x # ys) = x @ sep @ join sep ys"
  by (cases ys) auto

lemma join_splitAcc: "join [c] (splitAcc c cur s) = rev cur @ s"
proof (induction s arbitrary: cur)
  case Nil
  then show ?case by simp
next
  case (Cons x xs)
  show ?case
  proof (cases "x = c")
    case True
    then show ?thesis
      by (simp add: join_Cons_nonempty [OF splitAcc_nonempty] Cons.IH)
  next
    case False
    then show ?thesis by (simp add: Cons.IH)
  qed
qed

lemma join_splitOn: "join [c] (splitOn c s) = s"
  by (simp add: splitOn_def join_splitAcc)

lemma join_snoc: "xs \<noteq> [] \<Longrightarrow> join sep (xs @ [x]) = join sep xs @ sep @ x"
proof (induction xs rule: join.induct[of _ sep])
  case (1 sep)
  then show ?case by simp
next
  case (2 sep x)
  then show ?case by simp
next
  case (3 sep x y ys)
  then show ?case by simp
qed

lemma join_snoc_append: "join sep (xs @ [t @ e]) = join sep (xs @ [t]) @ e"
proof (cases "xs = []")
  case True
  then show ?thesis by simp
next
  case False
  then show ?thesis by (simp add: join_snoc)
qed


lemma normalizedText_Cons:
  "normalizedText (l # ls) = l @ concat (map (\<lambda>l'. terminatorBefore l' @ l') ls)"
  by (induction ls arbitrary: l) (simp_all add: terminatorBefore_def)

lemma line_parts: "3 < length l \<Longrightarrow> take 3 l @ [l ! 3] @ drop 4 l = l"
  using id_take_nth_drop [of 3 l] by simp

lemma segmentText_of_line:
  assumes "3 < length l"
  shows "segmentText \<lparr>segmentId = substring 0 3 l,
            fieldList = parseFields (substring 0 3 l) l (l ! 3),
            fieldSeparator = l ! 3, componentSeparator = cs, subcomponentSeparator = ss\<rparr> = l"
proof -
  have hd3: "take 1 (drop 3 l) = [l ! 3]"
    using assms by (simp add: take_Suc_conv_app_nth [of 0] hd_drop_conv_nth take_Suc)
  have "join [l ! 3] (parseFields (substring 0 3 l) l (l ! 3)) = drop 4 l"
    using hd3 by (simp add: parseFields_def startsWith_def join_splitOn Let_def)
  then show ?thesis
    using line_parts [OF assms] by (simp add: segmentText_def substring_def)
qed

lemma segmenterStep_header:
  assumes l: "trim l = l" "3 < length l" "substring 0 3 l = ''MSH''" "substring 0 3 l \<in> set ids"
  shows "\<exists>m. currentMessage (segmenterStep ids st l) = Some m \<and> segments m \<noteq> []
           \<and> messageText m = l
           \<and> messages (segmenterStep ids st l)
               = messages st @ (case currentMessage st of Some m' \<Rightarrow> [m'] | None \<Rightarrow> [])
           \<and> curFieldSeparator (segmenterStep ids st l) = l ! 3"
proof -
  have ne: "l \<noteq> []" using l(2) by auto
  have fsep: "curFieldSeparator (openMessage st l) = l ! 3"
    using l(2) by (simp add: openMessage_def Let_def)
  show ?thesis
    using l ne fsep segmentText_of_line [OF l(2)]
    by (simp add: segmenterStep_def Let_def openMessage_def messageText_def split: option.split)
qed

lemma segmenterStep_other:
  assumes l: "trim l = l" "3 < length l" "substring 0 3 l \<noteq> ''MSH''" "substring 0 3 l \<in> set ids"
    and st: "currentMessage st = Some m" "segments m \<noteq> []" "curFieldSeparator st = l ! 3"
  shows "\<exists>m'. currentMessage (segmenterStep ids st l) = Some m' \<and> segments m' \<noteq> []
           \<and> messageText m' = messageText m @ [CR] @ l
           \<and> messages (segmenterStep ids st l) = messages st
           \<and> curFieldSeparator (segmenterStep ids st l) = l ! 3"
proof -
  have ne: "l \<noteq> []" using l(2) by auto
  have "segmentText \<lparr>segmentId = substring 0 3 l,
            fieldList = parseFields (substring 0 3 l) l (curFieldSeparator st),
            fieldSeparator = curFieldSeparator st,
            componentSeparator = curComponentSeparator st,
            subcomponentSeparator = curSubcomponentSeparator st\<rparr> = l"
    unfolding st(3) by (rule segmentText_of_line [OF l(2)])
  then show ?thesis
    using l ne st
    by (simp add: segmenterStep_def Let_def messageText_def join_snoc)
qed


lemma join_snoc2: "join sep (xs @ [a, x]) = join sep (xs @ [a]) @ sep @ x"
  using join_snoc [of "xs @ [a]" sep x] by simp

lemma exportState_header:
  assumes l: "trim l = l" "3 < length l" "substring 0 3 l = ''MSH''" "substring 0 3 l \<in> set ids"
  shows "exportState (segmenterStep ids st l)
           = (if currentMessage st = None \<and> messages st = [] then l
              else exportState st @ [CR, CR, LF] @ l)"
proof -
  obtain m where m: "currentMessage (segmenterStep ids st l) = Some m" "messageText m = l"
    "messages (segmenterStep ids st l)
       = messages st @ (case currentMessage st of Some m' \<Rightarrow> [m'] | None \<Rightarrow> [])"
    using segmenterStep_header [OF l, of st] by auto
  show ?thesis
    by (cases "currentMessage st")
       (simp_all add: exportState_def exportText_def m join_snoc join_snoc2)
qed

lemma exportState_other:
  assumes l: "trim l = l" "3 < length l" "substring 0 3 l \<noteq> ''MSH''" "substring 0 3 l \<in> set ids"
    and st: "currentMessage st = Some m" "segments m \<noteq> []" "curFieldSeparator st = l ! 3"
  shows "exportState (segmenterStep ids st l) = exportState st @ [CR] @ l"
proof -
  obtain m' where m': "currentMessage (segmenterStep ids st l) = Some m'"
    "messageText m' = messageText m @ [CR] @ l"
    "messages (segmenterStep ids st l) = messages st"
    using segmenterStep_other [OF l st] by auto
  show ?thesis
    using join_snoc_append [of "[CR, CR, LF]" "map messageText (messages st)" "messageText m" "[CR] @ l"]
    by (simp add: exportState_def exportText_def m' st(1))
qed

lemma exportState_fold:
  assumes "canonicalLines ids fsep ls"
    and "currentMessage st = Some m" and "segments m \<noteq> []" and "curFieldSeparator st = fsep"
  shows "exportState (foldl (segmenterStep ids) st ls)
           = exportState st @ concat (map (\<lambda>l. terminatorBefore l @ l) ls)
         \<and> currentMessage (foldl (segmenterStep ids) st ls) \<noteq> None"
  using assms
proof (induction ls arbitrary: st m fsep)
  case Nil
  then show ?case by simp
next
  case (Cons l ls)
  have l: "trim l = l" "3 < length l" "substring 0 3 l \<in> set ids"
    and sepOk: "substring 0 3 l = ''MSH'' \<or> l ! 3 = fsep"
    and rest: "canonicalLines ids (l ! 3) ls"
    using Cons.prems(1) by auto
  let ?st = "segmenterStep ids st l"
  have step: "\<exists>m'. currentMessage ?st = Some m' \<and> segments m' \<noteq> []
                \<and> curFieldSeparator ?st = l ! 3"
    and exp: "exportState ?st = exportState st @ terminatorBefore l @ l"
  proof -
    show "\<exists>m'. currentMessage ?st = Some m' \<and> segments m' \<noteq> [] \<and> curFieldSeparator ?st = l ! 3"
    proof (cases "substring 0 3 l = ''MSH''")
      case True
      then show ?thesis using segmenterStep_header [OF l(1,2) True l(3), of st] by auto
    next
      case False
      then have "curFieldSeparator st = l ! 3" using sepOk Cons.prems(4) by simp
      then show ?thesis
        using segmenterStep_other [OF l(1,2) False l(3) Cons.prems(2,3)] by auto
    qed
    show "exportState ?st = exportState st @ terminatorBefore l @ l"
    proof (cases "substring 0 3 l = ''MSH''")
      case True
      then show ?thesis
        using exportState_header [OF l(1,2) True l(3), of st] Cons.prems(2)
        by (simp add: terminatorBefore_def)
    next
      case False
      then have "curFieldSeparator st = l ! 3" using sepOk Cons.prems(4) by simp
      then show ?thesis
        using exportState_other [OF l(1,2) False l(3) Cons.prems(2,3)] False
        by (simp add: terminatorBefore_def)
    qed
  qed
  from step obtain m' where m': "currentMessage ?st = Some m'" "segments m' \<noteq> []"
    "curFieldSeparator ?st = l ! 3" by auto
  show ?case
    using Cons.IH [OF rest m'] exp by simp
qed



lemma foldl_skip_blank:
  "foldl (segmenterStep ids) st (filter (\<lambda>l. trim l \<noteq> []) xs) = foldl (segmenterStep ids) st xs"
  by (induction xs arbitrary: st) (simp_all add: segmenterStep_def)

lemma exportText_parse:
  assumes ls: "ls = filter (\<lambda>l. trim l \<noteq> []) (splitLines content)"
    and ne: "ls \<noteq> []" and hd: "substring 0 3 (hd ls) = ''MSH''"
    and can: "canonicalLines ids (CHR ''|'') ls"
  shows "exportText (parseMessagesForFiltering ids content) = normalizedText ls"
proof -
  obtain l0 rest where split: "ls = l0 # rest" using ne by (cases ls) auto
  let ?st0 = "\<lparr>messages = [], currentMessage = None, curFieldSeparator = CHR ''|'',
                  curComponentSeparator = CHR ''^'', curSubcomponentSeparator = CHR ''&''\<rparr>"
  let ?st1 = "segmenterStep ids ?st0 l0"
  let ?stf = "foldl (segmenterStep ids) ?st1 rest"
  have l0: "trim l0 = l0" "3 < length l0" "substring 0 3 l0 = ''MSH''" "substring 0 3 l0 \<in> set ids"
    and rest: "canonicalLines ids (l0 ! 3) rest"
    using can hd unfolding split by auto
  obtain m where m: "currentMessage ?st1 = Some m" "segments m \<noteq> []"
    "curFieldSeparator ?st1 = l0 ! 3"
    using segmenterStep_header [OF l0, of ?st0] by auto
  have e1: "exportState ?st1 = l0"
    using exportState_header [OF l0, of ?st0] by simp
  have fold: "exportState ?stf = l0 @ concat (map (\<lambda>l. terminatorBefore l @ l) rest)"
    and cur: "currentMessage ?stf \<noteq> None"
    using exportState_fold [OF rest m] e1 by simp_all
  have "foldl (segmenterStep ids) ?st0 (splitLines content)
          = foldl (segmenterStep ids) ?st0 (l0 # rest)"
    using foldl_skip_blank [of ids ?st0 "splitLines content"] ls split by metis
  then have "foldl (segmenterStep ids) ?st0 (splitLines content) = ?stf"
    by simp
  then have "exportText (parseMessagesForFiltering ids content) = exportState ?stf"
    using cur by (auto simp: parseMessagesForFiltering_def exportState_def Let_def)
  then show ?thesis
    using fold by (simp add: split normalizedText_Cons)
qed

lemma export_of_canonical_lines:
  assumes "ls = filter (\<lambda>l. trim l \<noteq> []) (splitLines content)"
    and "ls \<noteq> []" and "substring 0 3 (hd ls) = ''MSH''"
    and "canonicalLines ids (CHR ''|'') ls"
    and "extractFieldValues jsf ids content fref (Some cfg) = Inr r" and "filters cfg \<noteq> []"
    and "\<forall>m \<in> set (parseMessagesForFiltering ids content).
           messageMatchesFilters jsf (segments m) (Some cfg)
             (msgComponentSeparator m) (msgSubcomponentSeparator m)"
  shows "filteredHL7Content r = normalizedText ls"
proof -
  have "filter (\<lambda>msg. messageMatchesFilters jsf (segments msg) (Some cfg)
                  (msgComponentSeparator msg) (msgSubcomponentSeparator msg))
          (parseMessagesForFiltering ids content) = parseMessagesForFiltering ids content"
    using assms(7) by (simp add: filter_id_conv)
  then have "filteredHL7Content r = exportText (parseMessagesForFiltering ids content)"
    using extractFieldValues_filtered [OF assms(5,6)] by simp
  then show ?thesis
    using exportText_parse [OF assms(1-4)] by simp
qed

lemma export_of_two_messages:
  "extractFieldValues facilityNo sampleIds twoMessages [] (Some passAll) = Inr passAllResult
   \<and> filter (\<lambda>l. trim l \<noteq> []) (splitLines twoMessages) = twoMessagesLines
   \<and> filteredHL7Content passAllResult = normalizedText twoMessagesLines"
  by code_simp

text \<open>A line that is a bare kind label is exported with a field separator added.\<close>

lemma export_adds_field_separator:
  "generateStatistics (extractFieldValues facilityNo sampleIds bareSegment [] (Some passAll))
     = FilterOnlyStats \<lparr>foTotalMessages = 1, foFilteredMessages = Some 1, foFilterApplied = True,
         foFilterExpression = ''MSH.1 exists'',
         foFilteredHL7Content = ''MSH|^~'' @ [CHR 0x5C] @ ''&|A'' @ [CR] @ ''PID|''\<rparr>"
  by code_simp

subsection \<open>Trimming\<close>








subsection \<open>One round on a stored line\<close>



















subsection \<open>One round of the segmenter\<close>

lemma segmentTexts_append [simp]:
  "segmentTexts (xs @ ys) = segmentTexts xs @ segmentTexts ys"
  by (simp add: segmentTexts_def)

lemma segmentTexts_single [simp]: "segmentTexts [m] = map segmentText (segments m)"
  by (simp add: segmentTexts_def)

lemma segmentTexts_Nil [simp]: "segmentTexts [] = []"
  by (simp add: segmentTexts_def)





subsection \<open>Segmenting the stored lines again\<close>


subsection \<open>Stored lines have no line break\<close>






subsection \<open>Lines of a text\<close>










lemma nonblankLines_Nil [simp]: "nonblankLines [] = []"
  by (simp add: nonblankLines_def splitLines_def trim_def)





subsection \<open>Segmenting an export text\<close>



text \<open>
  What the table of known kinds has to satisfy: when the header kind is not in it a
  message is stored without its header, and a label shorter than three characters
  does not come back as the kind of its exported line.
\<close>

lemma resegment_needs_header_kind:
  "parseMessagesForFiltering [''PID''] (exportText (parseMessagesForFiltering [''PID''] bareSegment))
     \<noteq> parseMessagesForFiltering [''PID''] bareSegment"
  by code_simp

lemma resegment_needs_whole_kind_labels:
  "parseMessagesForFiltering [''MSH'', ''PI'']
     (exportText (parseMessagesForFiltering [''MSH'', ''PI''] (''MSH|A'' @ [CR] @ ''PI'')))
     \<noteq> parseMessagesForFiltering [''MSH'', ''PI''] (''MSH|A'' @ [CR] @ ''PI'')"
  by code_simp




end
